theory Spec2Isabelle
  imports Main "HOL-Library.Word"
begin

section \<open>Text, bytes and the codecs used by the editors\<close>

text \<open>
  The three editors (\<^verbatim>\<open>src/Windows.py\<close>, \<^verbatim>\<open>src/macos.py\<close>, \<^verbatim>\<open>src/linux.py\<close>) keep
  their document in a Tk text widget and move it to and from disk with Python's
  text-mode \<^verbatim>\<open>open\<close>. A Python \<^verbatim>\<open>str\<close> is a sequence of Unicode code points, a file is a
  sequence of bytes, and a path is an opaque name.
\<close>

type_synonym pystr = "nat list"
type_synonym byte = "8 word"
type_synonym path = string

datatype encoding = UTF_8 | CP1251 | ISO_8859_1

text \<open>
  \<^verbatim>\<open>'latin-1'\<close> (macos.py) and \<^verbatim>\<open>'iso-8859-1'\<close> (linux.py) name the same Python codec.
\<close>

datatype exn = OSError | UnicodeDecodeError | UnicodeEncodeError | ValueError

definition cont :: "byte \<Rightarrow> bool" where
  "cont b \<longleftrightarrow> 0x80 \<le> b \<and> b \<le> 0xBF"

definition low6 :: "byte \<Rightarrow> nat" where
  "low6 b = unat b - 0x80"

text \<open>
  Strict UTF-8 decoding (the \<^verbatim>\<open>errors='strict'\<close> default of \<^verbatim>\<open>open\<close>): overlong forms,
  surrogates and values above U+10FFFF are rejected.
\<close>

fun utf8_decode :: "byte list \<Rightarrow> pystr option" where
  "utf8_decode [] = Some []"
| "utf8_decode (b0 # bs) =
     (if b0 < 0x80 then map_option ((#) (unat b0)) (utf8_decode bs)
      else if 0xC2 \<le> b0 \<and> b0 \<le> 0xDF then
        (case bs of
           b1 # r1 \<Rightarrow>
             if cont b1
             then map_option ((#) ((unat b0 - 0xC0) * 64 + low6 b1)) (utf8_decode r1)
             else None
         | _ \<Rightarrow> None)
      else if 0xE0 \<le> b0 \<and> b0 \<le> 0xEF then
        (case bs of
           b1 # b2 # r2 \<Rightarrow>
             if cont b1 \<and> cont b2 \<and> (if b0 = 0xE0 then 0xA0 \<le> b1 else True)
                \<and> (if b0 = 0xED then b1 \<le> 0x9F else True)
             then map_option ((#) ((unat b0 - 0xE0) * 4096 + low6 b1 * 64 + low6 b2))
                    (utf8_decode r2)
             else None
         | _ \<Rightarrow> None)
      else if 0xF0 \<le> b0 \<and> b0 \<le> 0xF4 then
        (case bs of
           b1 # b2 # b3 # r3 \<Rightarrow>
             if cont b1 \<and> cont b2 \<and> cont b3 \<and> (if b0 = 0xF0 then 0x90 \<le> b1 else True)
                \<and> (if b0 = 0xF4 then b1 \<le> 0x8F else True)
             then map_option
                    ((#) ((unat b0 - 0xF0) * 262144 + low6 b1 * 4096 + low6 b2 * 64 + low6 b3))
                    (utf8_decode r3)
             else None
         | _ \<Rightarrow> None)
      else None)"

text \<open>
  The upper half of Python's \<^verbatim>\<open>cp1251\<close> decoding table, bytes 0x80 to 0xBF; byte 0x98 is
  undefined. Bytes 0xC0 to 0xFF are the Cyrillic block starting at U+0410.
\<close>

definition cp1251_high :: "nat option list" where
  "cp1251_high =
    [Some 0x0402, Some 0x0403, Some 0x201A, Some 0x0453, Some 0x201E, Some 0x2026, Some 0x2020, Some 0x2021,
     Some 0x20AC, Some 0x2030, Some 0x0409, Some 0x2039, Some 0x040A, Some 0x040C, Some 0x040B, Some 0x040F,
     Some 0x0452, Some 0x2018, Some 0x2019, Some 0x201C, Some 0x201D, Some 0x2022, Some 0x2013, Some 0x2014,
     None,        Some 0x2122, Some 0x0459, Some 0x203A, Some 0x045A, Some 0x045C, Some 0x045B, Some 0x045F,
     Some 0x00A0, Some 0x040E, Some 0x045E, Some 0x0408, Some 0x00A4, Some 0x0490, Some 0x00A6, Some 0x00A7,
     Some 0x0401, Some 0x00A9, Some 0x0404, Some 0x00AB, Some 0x00AC, Some 0x00AD, Some 0x00AE, Some 0x0407,
     Some 0x00B0, Some 0x00B1, Some 0x0406, Some 0x0456, Some 0x0491, Some 0x00B5, Some 0x00B6, Some 0x00B7,
     Some 0x0451, Some 0x2116, Some 0x0454, Some 0x00BB, Some 0x0458, Some 0x0405, Some 0x0455, Some 0x0457]"

definition cp1251_char :: "byte \<Rightarrow> nat option" where
  "cp1251_char b =
     (if b < 0x80 then Some (unat b)
      else if b < 0xC0 then cp1251_high ! (unat b - 0x80)
      else Some (0x0410 + (unat b - 0xC0)))"

fun cp1251_decode :: "byte list \<Rightarrow> pystr option" where
  "cp1251_decode [] = Some []"
| "cp1251_decode (b # bs) =
     (case cp1251_char b of
        None \<Rightarrow> None
      | Some c \<Rightarrow> map_option ((#) c) (cp1251_decode bs))"

definition latin1_decode :: "byte list \<Rightarrow> pystr option" where
  "latin1_decode bs = Some (map unat bs)"

fun decode :: "encoding \<Rightarrow> byte list \<Rightarrow> pystr option" where
  "decode UTF_8 bs = utf8_decode bs"
| "decode CP1251 bs = cp1251_decode bs"
| "decode ISO_8859_1 bs = latin1_decode bs"

text \<open>UTF-8 encoding of one code point; a lone surrogate cannot be encoded.\<close>

definition utf8_encode_char :: "nat \<Rightarrow> byte list option" where
  "utf8_encode_char c =
     (if c < 0x80 then Some [of_nat c]
      else if c < 0x800 then Some [of_nat (0xC0 + c div 64), of_nat (0x80 + c mod 64)]
      else if c < 0x10000 then
        (if 0xD800 \<le> c \<and> c \<le> 0xDFFF then None
         else Some [of_nat (0xE0 + c div 4096), of_nat (0x80 + (c div 64) mod 64),
                    of_nat (0x80 + c mod 64)])
      else if c < 0x110000 then
        Some [of_nat (0xF0 + c div 262144), of_nat (0x80 + (c div 4096) mod 64),
              of_nat (0x80 + (c div 64) mod 64), of_nat (0x80 + c mod 64)]
      else None)"

fun utf8_encode :: "pystr \<Rightarrow> byte list option" where
  "utf8_encode [] = Some []"
| "utf8_encode (c # cs) =
     (case utf8_encode_char c of
        None \<Rightarrow> None
      | Some bs \<Rightarrow> map_option ((@) bs) (utf8_encode cs))"

text \<open>
  Text-mode files translate line endings (\<^verbatim>\<open>newline=None\<close>): on input \<^verbatim>\<open>\r\n\<close> and a
  lone \<^verbatim>\<open>\r\<close> become \<^verbatim>\<open>\n\<close>; on output every \<^verbatim>\<open>\n\<close> becomes \<^verbatim>\<open>os.linesep\<close>. The flag of
  \<open>universal_newlines\<close> records that the previous character was a carriage return.
\<close>

fun universal_newlines :: "bool \<Rightarrow> pystr \<Rightarrow> pystr" where
  "universal_newlines pendingcr [] = []"
| "universal_newlines pendingcr (c # cs) =
     (if c = 10 \<and> pendingcr then universal_newlines False cs
      else if c = 13 then 10 # universal_newlines True cs
      else c # universal_newlines False cs)"

definition translate_newlines :: "pystr \<Rightarrow> pystr \<Rightarrow> pystr" where
  "translate_newlines linesep s = concat (map (\<lambda>c. if c = 10 then linesep else [c]) s)"

section \<open>The editor's state and its collaborators\<close>

text \<open>
  The Tk text widget, as far as the document lifecycle uses it: its characters (without
  the final newline that Tk keeps after the last line) and its modified flag. The window
  title and the status bar only display state and are not part of the model.
\<close>

record text_widget =
  content :: pystr
  modified :: bool

datatype platform = Windows | MacOS | Linux

text \<open>
  The attributes of \<^verbatim>\<open>NotepadApp\<close> / \<^verbatim>\<open>LinuxNotepad\<close>. \<open>recent_files\<close>, \<open>max_files\<close> (the
  value \<^verbatim>\<open>config.getint('recent', 'max_files')\<close> yields, \<open>None\<close> when it raises
  \<^verbatim>\<open>ValueError\<close>) and \<open>encoding_label\<close> are used by linux.py only. \<open>quit\<close> records that
  \<^verbatim>\<open>root.quit()\<close> was called.
\<close>

record app =
  "text" :: text_widget
  current_file :: "path option"
  recent_files :: "path list"
  max_files :: "int option"
  encoding_label :: encoding
  quit :: bool

datatype message = Open_failed | Save_failed | Encoding_undetermined

text \<open>Every call to a collaborator is recorded, in order.\<close>

datatype event =
    AskYesNoCancel
  | AskOpenFilename
  | AskSaveAsFilename
  | ShowError message
  | Read path encoding
  | Write path pystr
  | WriteRecent "path list"
  | WriteConfig path

text \<open>
  The file system and the platform: the bytes of each existing file, which paths can be
  opened for reading and for writing, \<^verbatim>\<open>os.linesep\<close>, whether writing the recent-files
  list and \<^verbatim>\<open>save_config\<close> go through, and the record of collaborator calls.
\<close>

record world =
  files :: "path \<rightharpoonup> byte list"
  readable :: "path \<Rightarrow> bool"
  writable :: "path \<Rightarrow> bool"
  linesep :: pystr
  recent_writable :: bool
  config_writable :: bool
  log :: "event list"

text \<open>
  What the user answers: \<^verbatim>\<open>askyesnocancel\<close> returns \<^verbatim>\<open>True\<close>, \<^verbatim>\<open>False\<close> or \<^verbatim>\<open>None\<close>
  (Cancel); the file dialogs return the chosen path, or the empty string when dismissed.
\<close>

record user =
  unsaved_response :: "bool option"
  save_as_path :: path
  open_path :: path

definition record_event :: "event \<Rightarrow> world \<Rightarrow> world" where
  "record_event e w = w\<lparr>log := log w @ [e]\<rparr>"

subsection \<open>The text widget\<close>

definition edit_modified :: "app \<Rightarrow> bool" where
  "edit_modified a = modified (text a)"

definition set_edit_modified :: "bool \<Rightarrow> app \<Rightarrow> app" where
  "set_edit_modified b a = a\<lparr>text := (text a)\<lparr>modified := b\<rparr>\<rparr>"

text \<open>
  \<^verbatim>\<open>text.get(1.0, tk.END)\<close>: \<^verbatim>\<open>END\<close> lies after the widget's final newline, so the result
  is the content followed by a newline.
\<close>

definition text_get :: "app \<Rightarrow> pystr" where
  "text_get a = content (text a) @ [10]"

text \<open>
  \<^verbatim>\<open>text.delete(1.0, tk.END)\<close> and \<^verbatim>\<open>text.insert(1.0, s)\<close>; as the Tk manual has it,
  insert and delete set the modified flag.
\<close>

definition text_delete :: "app \<Rightarrow> app" where
  "text_delete a = a\<lparr>text := \<lparr>content = [], modified = True\<rparr>\<rparr>"

definition text_insert :: "pystr \<Rightarrow> app \<Rightarrow> app" where
  "text_insert s a = a\<lparr>text := \<lparr>content = s @ content (text a), modified = True\<rparr>\<rparr>"

subsection \<open>Files\<close>

text \<open>
  \<^verbatim>\<open>with open(p, 'r', encoding=enc) as file: content = file.read()\<close>. A missing or
  unreadable file raises \<^verbatim>\<open>OSError\<close>, undecodable bytes \<^verbatim>\<open>UnicodeDecodeError\<close>.
\<close>

definition read_text :: "path \<Rightarrow> encoding \<Rightarrow> world \<Rightarrow> (exn + pystr) \<times> world" where
  "read_text p enc w =
     (let w1 = record_event (Read p enc) w in
      case files w p of
        None \<Rightarrow> (Inl OSError, w1)
      | Some bs \<Rightarrow>
          if \<not> readable w p then (Inl OSError, w1)
          else (case decode enc bs of
                  None \<Rightarrow> (Inl UnicodeDecodeError, w1)
                | Some s \<Rightarrow> (Inr (universal_newlines False s), w1)))"

text \<open>
  \<^verbatim>\<open>with open(p, 'w', encoding='utf-8') as file: file.write(s)\<close>. Opening truncates the
  file; a string that cannot be encoded raises \<^verbatim>\<open>UnicodeEncodeError\<close> and leaves it empty.
\<close>

definition write_text :: "path \<Rightarrow> pystr \<Rightarrow> world \<Rightarrow> exn option \<times> world" where
  "write_text p s w =
     (let w1 = record_event (Write p s) w in
      if \<not> writable w p then (Some OSError, w1)
      else (case utf8_encode (translate_newlines (linesep w) s) of
              None \<Rightarrow> (Some UnicodeEncodeError, w1\<lparr>files := (files w)(p \<mapsto> [])\<rparr>)
            | Some bs \<Rightarrow> (None, w1\<lparr>files := (files w)(p \<mapsto> bs)\<rparr>)))"

text \<open>Python's truth value of \<^verbatim>\<open>self.current_file\<close> and of a dialog result.\<close>

definition truthy :: "path \<Rightarrow> bool" where
  "truthy p \<longleftrightarrow> p \<noteq> []"

text \<open>\<^verbatim>\<open>xs[:n]\<close>; a negative \<open>n\<close> counts from the end.\<close>

definition py_prefix :: "int \<Rightarrow> 'a list \<Rightarrow> 'a list" where
  "py_prefix n xs = (if 0 \<le> n then take (nat n) xs else take (nat (int (length xs) + n)) xs)"

subsection \<open>linux.py: the recent-files list\<close>

text \<open>
  \<^verbatim>\<open>add_to_recent_files\<close> moves the path to the front of the list, cuts the list to
  \<^verbatim>\<open>max_files\<close> entries and rewrites the recent-files file. It has no exception handler of
  its own: a failure is raised into the caller, with the list already changed.
\<close>

definition add_to_recent_files :: "path \<Rightarrow> app \<times> world \<Rightarrow> exn option \<times> app \<times> world" where
  "add_to_recent_files p s =
     (case s of (a, w) \<Rightarrow>
        let a1 = a\<lparr>recent_files := p # remove1 p (recent_files a)\<rparr> in
        case max_files a of
          None \<Rightarrow> (Some ValueError, a1, w)
        | Some n \<Rightarrow>
            let a2 = a1\<lparr>recent_files := py_prefix n (recent_files a1)\<rparr> in
            if recent_writable w
            then (None, a2, record_event (WriteRecent (recent_files a2)) w)
            else (Some OSError, a2, w))"

subsection \<open>Save and Save As\<close>

text \<open>
  \<^verbatim>\<open>save_as_file\<close>, the same in the three files but for the last step of linux.py, which
  adds the path to the recent files inside the \<^verbatim>\<open>try\<close> block, after the modified flag has
  been reset.
\<close>

definition save_as_file :: "platform \<Rightarrow> user \<Rightarrow> app \<times> world \<Rightarrow> app \<times> world" where
  "save_as_file v u s =
     (case s of (a, w) \<Rightarrow>
        let w1 = record_event AskSaveAsFilename w; file_path = save_as_path u in
        if truthy file_path then
          (case write_text file_path (text_get a) w1 of
             (Some e, w2) \<Rightarrow> (a, record_event (ShowError Save_failed) w2)
           | (None, w2) \<Rightarrow>
               let a1 = set_edit_modified False (a\<lparr>current_file := Some file_path\<rparr>) in
               if v = Linux then
                 (case add_to_recent_files file_path (a1, w2) of
                    (Some e, a2, w3) \<Rightarrow> (a2, record_event (ShowError Save_failed) w3)
                  | (None, a2, w3) \<Rightarrow> (a2, w3))
               else (a1, w2))
        else (a, w1))"

text \<open>
  \<^verbatim>\<open>save_file\<close>: with a current file, its \<^verbatim>\<open>try\<close> block (\<open>save_to_current\<close>), else
  \<^verbatim>\<open>save_as_file\<close>.
\<close>

definition save_to_current :: "path \<Rightarrow> app \<times> world \<Rightarrow> app \<times> world" where
  "save_to_current p s =
     (case s of (a, w) \<Rightarrow>
        case write_text p (text_get a) w of
          (Some e, w1) \<Rightarrow> (a, record_event (ShowError Save_failed) w1)
        | (None, w1) \<Rightarrow> (set_edit_modified False a, w1))"

definition save_file :: "platform \<Rightarrow> user \<Rightarrow> app \<times> world \<Rightarrow> app \<times> world" where
  "save_file v u s =
     (case current_file (fst s) of
        None \<Rightarrow> save_as_file v u s
      | Some p \<Rightarrow> if truthy p then save_to_current p s else save_as_file v u s)"

subsection \<open>The gate before a destructive action\<close>

definition check_unsaved_changes :: "platform \<Rightarrow> user \<Rightarrow> app \<times> world \<Rightarrow> bool \<times> app \<times> world" where
  "check_unsaved_changes v u s =
     (case s of (a, w) \<Rightarrow>
        if edit_modified a then
          (let w1 = record_event AskYesNoCancel w in
           case unsaved_response u of
             None \<Rightarrow> (False, a, w1)
           | Some True \<Rightarrow>
               (case save_file v u (a, w1) of (a2, w2) \<Rightarrow> (\<not> edit_modified a2, a2, w2))
           | Some False \<Rightarrow> (True, set_edit_modified False a, w1))
        else (True, a, w))"

subsection \<open>Loading a file\<close>

text \<open>
  The replacement of the document by what was read:
  \<^verbatim>\<open>text.delete(1.0, tk.END); text.insert(1.0, content); self.current_file = file_path\<close>.
\<close>

definition replace_document :: "path \<Rightarrow> pystr \<Rightarrow> app \<Rightarrow> app" where
  "replace_document p s a = (text_insert s (text_delete a))\<lparr>current_file := Some p\<rparr>"

text \<open>
  Windows.py, the \<^verbatim>\<open>try\<close> block of \<^verbatim>\<open>open_file\<close>: UTF-8 only, and the modified flag is not
  reset after the insertion.
\<close>

definition windows_load :: "path \<Rightarrow> app \<times> world \<Rightarrow> app \<times> world" where
  "windows_load p s =
     (case s of (a, w) \<Rightarrow>
        case read_text p UTF_8 w of
          (Inr c, w1) \<Rightarrow> (replace_document p c a, w1)
        | (Inl e, w1) \<Rightarrow> (a, record_event (ShowError Open_failed) w1))"

text \<open>
  macos.py, the \<^verbatim>\<open>try\<close> block of \<^verbatim>\<open>open_file\<close>: UTF-8, and latin-1 in the handler of
  \<^verbatim>\<open>UnicodeDecodeError\<close>.
\<close>

definition macos_load :: "path \<Rightarrow> app \<times> world \<Rightarrow> app \<times> world" where
  "macos_load p s =
     (case s of (a, w) \<Rightarrow>
        case read_text p UTF_8 w of
          (Inr c, w1) \<Rightarrow> (set_edit_modified False (replace_document p c a), w1)
        | (Inl UnicodeDecodeError, w1) \<Rightarrow>
            (case read_text p ISO_8859_1 w1 of
               (Inr c, w2) \<Rightarrow> (set_edit_modified False (replace_document p c a), w2)
             | (Inl e, w2) \<Rightarrow> (a, record_event (ShowError Open_failed) w2))
        | (Inl e, w1) \<Rightarrow> (a, record_event (ShowError Open_failed) w1))"

text \<open>
  linux.py, \<^verbatim>\<open>load_file\<close>: the \<^verbatim>\<open>for\<close> loop over the encodings with its \<^verbatim>\<open>else\<close> branch.
  \<^verbatim>\<open>UnicodeDecodeError\<close> continues with the next encoding; any other exception, also one
  raised by \<^verbatim>\<open>add_to_recent_files\<close> after the document was replaced, reaches the outer
  handler.
\<close>

fun load_file_loop :: "path \<Rightarrow> encoding list \<Rightarrow> app \<times> world \<Rightarrow> app \<times> world" where
  "load_file_loop p [] s =
     (case s of (a, w) \<Rightarrow> (a, record_event (ShowError Encoding_undetermined) w))"
| "load_file_loop p (enc # encs) s =
     (case s of (a, w) \<Rightarrow>
        case read_text p enc w of
          (Inr c, w1) \<Rightarrow>
            (case add_to_recent_files p ((replace_document p c a)\<lparr>encoding_label := enc\<rparr>, w1) of
               (Some e, a2, w2) \<Rightarrow> (a2, record_event (ShowError Open_failed) w2)
             | (None, a2, w2) \<Rightarrow> (set_edit_modified False a2, w2))
        | (Inl UnicodeDecodeError, w1) \<Rightarrow> load_file_loop p encs (a, w1)
        | (Inl e, w1) \<Rightarrow> (a, record_event (ShowError Open_failed) w1))"

definition load_file :: "path \<Rightarrow> app \<times> world \<Rightarrow> app \<times> world" where
  "load_file p s = load_file_loop p [UTF_8, CP1251, ISO_8859_1] s"

fun load :: "platform \<Rightarrow> path \<Rightarrow> app \<times> world \<Rightarrow> app \<times> world" where
  "load Windows p s = windows_load p s"
| "load MacOS p s = macos_load p s"
| "load Linux p s = load_file p s"

text \<open>The encodings each editor tries, in the order it tries them.\<close>

fun load_encodings :: "platform \<Rightarrow> encoding list" where
  "load_encodings Windows = [UTF_8]"
| "load_encodings MacOS = [UTF_8, ISO_8859_1]"
| "load_encodings Linux = [UTF_8, CP1251, ISO_8859_1]"

subsection \<open>New, Open and Exit\<close>

definition new_file :: "platform \<Rightarrow> user \<Rightarrow> app \<times> world \<Rightarrow> app \<times> world" where
  "new_file v u s =
     (case check_unsaved_changes v u s of
        (True, a, w) \<Rightarrow> ((text_delete a)\<lparr>current_file := None\<rparr>, w)
      | (False, a, w) \<Rightarrow> (a, w))"

text \<open>
  \<^verbatim>\<open>open_file\<close>; the optional \<^verbatim>\<open>filepath\<close> argument exists in linux.py only, where the
  dialog is shown when it is missing or empty.
\<close>

definition open_file :: "platform \<Rightarrow> path option \<Rightarrow> user \<Rightarrow> app \<times> world \<Rightarrow> app \<times> world" where
  "open_file v filepath u s =
     (case check_unsaved_changes v u s of
        (True, a, w) \<Rightarrow>
          (case (if v = Linux then filepath else None) of
             Some p \<Rightarrow>
               if truthy p then load v p (a, w)
               else (let w1 = record_event AskOpenFilename w in
                     if truthy (open_path u) then load v (open_path u) (a, w1) else (a, w1))
           | None \<Rightarrow>
               (let w1 = record_event AskOpenFilename w in
                if truthy (open_path u) then load v (open_path u) (a, w1) else (a, w1)))
      | (False, a, w) \<Rightarrow> (a, w))"

text \<open>
  \<^verbatim>\<open>exit_app\<close>. linux.py first stores the current file in the configuration file, outside
  any handler: when that write fails, \<^verbatim>\<open>root.quit()\<close> is not reached.
\<close>

definition exit_app :: "platform \<Rightarrow> user \<Rightarrow> app \<times> world \<Rightarrow> app \<times> world" where
  "exit_app v u s =
     (case check_unsaved_changes v u s of
        (True, a, w) \<Rightarrow>
          (case (if v = Linux then current_file a else None) of
             Some p \<Rightarrow>
               if truthy p then
                 (if config_writable w then (a\<lparr>quit := True\<rparr>, record_event (WriteConfig p) w)
                  else (a, w))
               else (a\<lparr>quit := True\<rparr>, w)
           | None \<Rightarrow> (a\<lparr>quit := True\<rparr>, w))
      | (False, a, w) \<Rightarrow> (a, w))"

section \<open>Conditions on the environment\<close>

text \<open>
  The path \<^verbatim>\<open>save_file\<close> writes to: the current file, or else the answer of the Save As
  dialog (empty when the dialog was dismissed).
\<close>

definition save_target :: "user \<Rightarrow> app \<Rightarrow> path" where
  "save_target u a =
     (case current_file a of
        None \<Rightarrow> save_as_path u
      | Some p \<Rightarrow> if truthy p then p else save_as_path u)"

text \<open>Writing \<open>s\<close> to \<open>p\<close> raises nothing: the path can be opened and the text encoded.\<close>

definition write_succeeds :: "world \<Rightarrow> path \<Rightarrow> pystr \<Rightarrow> bool" where
  "write_succeeds w p s \<longleftrightarrow>
     writable w p \<and> utf8_encode (translate_newlines (linesep w) s) \<noteq> None"

text \<open>The file can be read and one of the editor's encodings decodes it.\<close>

definition read_succeeds :: "platform \<Rightarrow> world \<Rightarrow> path \<Rightarrow> bool" where
  "read_succeeds v w p \<longleftrightarrow>
     (case files w p of
        None \<Rightarrow> False
      | Some bs \<Rightarrow> readable w p \<and> list_ex (\<lambda>e. decode e bs \<noteq> None) (load_encodings v))"

text \<open>
  The path \<^verbatim>\<open>open_file\<close> loads: its argument when linux.py is given a non-empty one, else
  the answer of the Open dialog.
\<close>

definition requested_path :: "platform \<Rightarrow> path option \<Rightarrow> user \<Rightarrow> path" where
  "requested_path v filepath u =
     (case (if v = Linux then filepath else None) of
        None \<Rightarrow> open_path u
      | Some p \<Rightarrow> if truthy p then p else open_path u)"

section \<open>Sample states\<close>

text \<open>
  A document holding \<^verbatim>\<open>hello\<close> with unsaved changes, a file system in which every path can
  be read and written, and users giving each of the three answers.
\<close>

definition hello :: pystr where
  "hello = [104, 101, 108, 108, 111]"

definition hello_bytes :: "byte list" where
  "hello_bytes = [0x68, 0x65, 0x6C, 0x6C, 0x6F]"

definition dirty_app :: app where
  "dirty_app = \<lparr>text = \<lparr>content = hello, modified = True\<rparr>, current_file = None,
                recent_files = [], max_files = Some 10, encoding_label = UTF_8, quit = False\<rparr>"

definition named_app :: app where
  "named_app = dirty_app\<lparr>current_file := Some ''/tmp/a.txt''\<rparr>"

definition clean_app :: app where
  "clean_app = set_edit_modified False named_app"

definition posix_world :: world where
  "posix_world = \<lparr>files = Map.empty, readable = (\<lambda>p. True), writable = (\<lambda>p. True),
                   linesep = [10], recent_writable = True, config_writable = True, log = []\<rparr>"

definition readonly_world :: world where
  "readonly_world = posix_world\<lparr>writable := (\<lambda>p. False)\<rparr>"

text \<open>
  A file of the single byte 0xE9: not UTF-8, the letter U+0439 in cp1251, U+00E9 in
  latin-1. And a file of the single byte 0x98, which only latin-1 decodes.
\<close>

definition legacy_world :: world where
  "legacy_world = posix_world\<lparr>files := [''/tmp/a.txt'' \<mapsto> [0xE9], ''/tmp/b.txt'' \<mapsto> [0x98]]\<rparr>"

text \<open>
  A file holding \<^verbatim>\<open>hello\<close> in UTF-8; a platform on which the recent-files list cannot be
  written; and an editor just started, empty and unmodified.
\<close>

definition hello_world :: world where
  "hello_world = posix_world\<lparr>files := [''/tmp/a.txt'' \<mapsto> hello_bytes]\<rparr>"

definition norecent_world :: world where
  "norecent_world = legacy_world\<lparr>recent_writable := False\<rparr>"

definition empty_app :: app where
  "empty_app = \<lparr>text = \<lparr>content = [], modified = False\<rparr>, current_file = None,
                recent_files = [], max_files = Some 10, encoding_label = UTF_8, quit = False\<rparr>"

definition user_save :: user where
  "user_save = \<lparr>unsaved_response = Some True, save_as_path = ''/tmp/a.txt'', open_path = ''/tmp/a.txt''\<rparr>"

definition user_save_dismiss :: user where
  "user_save_dismiss = user_save\<lparr>save_as_path := []\<rparr>"

definition user_discard :: user where
  "user_discard = user_save\<lparr>unsaved_response := Some False\<rparr>"

definition user_cancel :: user where
  "user_cancel = user_save\<lparr>unsaved_response := None\<rparr>"

section \<open>Unfolding and evaluation\<close>

lemmas widget_defs = record_event_def edit_modified_def set_edit_modified_def text_get_def
  text_delete_def text_insert_def truthy_def

lemmas sample_defs = hello_def hello_bytes_def dirty_app_def named_app_def clean_app_def
  posix_world_def readonly_world_def legacy_world_def hello_world_def
  norecent_world_def empty_app_def user_save_def user_save_dismiss_def user_discard_def
  user_cancel_def

lemmas eval_defs = check_unsaved_changes_def save_file_def save_as_file_def save_to_current_def
  write_text_def read_text_def add_to_recent_files_def py_prefix_def translate_newlines_def
  utf8_encode_char_def save_target_def write_succeeds_def Let_def

lemmas load_defs = load_file_def macos_load_def windows_load_def replace_document_def
  latin1_decode_def cp1251_char_def cont_def low6_def

section \<open>UTF-8: decoding undoes encoding\<close>

lemma three_byte_parts: "(c::nat) div 4096 * 4096 + (c div 64) mod 64 * 64 + c mod 64 = c"
proof -
  have "c mod 4096 = 64 * (c div 64 mod 64) + c mod 64"
    using mod_mult2_eq[of c 64 64] by simp
  moreover have "c = c div 4096 * 4096 + c mod 4096" by simp
  ultimately show ?thesis by linarith
qed

lemma four_byte_parts: "(c::nat) div 262144 * 262144 + (c div 4096) mod 64 * 4096 + (c div 64) mod 64 * 64 + c mod 64 = c"
proof -
  have "c mod 262144 = 4096 * (c div 4096 mod 64) + c mod 4096"
    using mod_mult2_eq[of c 4096 64] by simp
  moreover have "c mod 4096 = 64 * (c div 64 mod 64) + c mod 64"
    using mod_mult2_eq[of c 64 64] by simp
  moreover have "c = c div 262144 * 262144 + c mod 262144" by simp
  ultimately show ?thesis by linarith
qed

lemma three_byte_not_overlong: "2048 \<le> (c::nat) \<Longrightarrow> c div 4096 = 0 \<Longrightarrow> 32 \<le> (c div 64) mod 64"
proof -
  assume a: "2048 \<le> c" "c div 4096 = 0"
  then have "c < 4096" by (simp add: div_eq_0_iff)
  then have "c div 64 < 64" by simp
  moreover from a have "32 \<le> c div 64" by simp
  ultimately show ?thesis by simp
qed

lemma three_byte_not_surrogate: "(c::nat) < 55296 \<Longrightarrow> c div 4096 = 13 \<Longrightarrow> (c div 64) mod 64 < 32"
proof -
  assume a: "c < 55296" "c div 4096 = 13"
  have "c div 64 div 64 = 13" using a(2) by (simp add: div_mult2_eq[symmetric])
  with div_mult_mod_eq[of "c div 64" 64] have "c div 64 = 832 + c div 64 mod 64" by simp
  moreover from a have "c div 64 < 864" by simp
  ultimately show ?thesis by linarith
qed

lemma four_byte_not_overlong: "65536 \<le> (c::nat) \<Longrightarrow> c div 262144 = 0 \<Longrightarrow> 16 \<le> (c div 4096) mod 64"
proof -
  assume a: "65536 \<le> c" "c div 262144 = 0"
  then have "c < 262144" by (simp add: div_eq_0_iff)
  then have "c div 4096 < 64" by simp
  moreover from a have "16 \<le> c div 4096" by simp
  ultimately show ?thesis by simp
qed

lemma four_byte_in_range: "(c::nat) < 1114112 \<Longrightarrow> c div 262144 = 4 \<Longrightarrow> (c div 4096) mod 64 < 16"
proof -
  assume a: "c < 1114112" "c div 262144 = 4"
  have "c div 4096 div 64 = 4" using a(2) by (simp add: div_mult2_eq[symmetric])
  with div_mult_mod_eq[of "c div 4096" 64] have "c div 4096 = 256 + c div 4096 mod 64" by simp
  moreover from a have "c div 4096 < 272" by simp
  ultimately show ?thesis by linarith
qed


lemma unat_byte: "n < 256 \<Longrightarrow> unat (of_nat n :: byte) = n"
  by (simp add: unat_of_nat take_bit_eq_mod)

lemma utf8_decode_one:
  assumes "unat b0 = c" "c < 0x80"
  shows "utf8_decode (b0 # rest) = map_option ((#) c) (utf8_decode rest)"
  using assms by (simp add: word_less_nat_alt)

lemma utf8_decode_two:
  assumes "unat b0 = 0xC0 + h" "2 \<le> h" "h < 32" "unat b1 = 0x80 + l" "l < 64"
  shows "utf8_decode (b0 # b1 # rest) = map_option ((#) (h * 64 + l)) (utf8_decode rest)"
  using assms by (simp add: word_less_nat_alt word_le_nat_alt cont_def low6_def)

lemma utf8_decode_three:
  assumes "unat b0 = 0xE0 + h" "h < 16" "unat b1 = 0x80 + m" "m < 64" "unat b2 = 0x80 + l" "l < 64"
    and "h = 0 \<longrightarrow> 32 \<le> m" and "h = 13 \<longrightarrow> m < 32"
  shows "utf8_decode (b0 # b1 # b2 # rest) = map_option ((#) (h * 4096 + m * 64 + l)) (utf8_decode rest)"
proof -
  have e: "b0 = 0xE0 \<longleftrightarrow> h = 0" "b0 = 0xED \<longleftrightarrow> h = 13"
    using assms(1) by (auto simp: word_unat_eq_iff)
  show ?thesis using assms
    by (auto simp: word_less_nat_alt word_le_nat_alt cont_def low6_def e)
qed

lemma utf8_decode_four:
  assumes "unat b0 = 0xF0 + h" "h < 5" "unat b1 = 0x80 + m" "m < 64" "unat b2 = 0x80 + l" "l < 64"
    "unat b3 = 0x80 + k" "k < 64"
    and "h = 0 \<longrightarrow> 16 \<le> m" and "h = 4 \<longrightarrow> m < 16"
  shows "utf8_decode (b0 # b1 # b2 # b3 # rest)
       = map_option ((#) (h * 262144 + m * 4096 + l * 64 + k)) (utf8_decode rest)"
proof -
  have e: "b0 = 0xF0 \<longleftrightarrow> h = 0" "b0 = 0xF4 \<longleftrightarrow> h = 4"
    using assms(1) by (auto simp: word_unat_eq_iff)
  show ?thesis using assms
    by (auto simp: word_less_nat_alt word_le_nat_alt cont_def low6_def e)
qed

lemma utf8_char_roundtrip:
  assumes "utf8_encode_char c = Some bs"
  shows "utf8_decode (bs @ rest) = map_option ((#) c) (utf8_decode rest)"
proof -
  consider (a) "c < 0x80" | (b) "0x80 \<le> c" "c < 0x800"
    | (c) "0x800 \<le> c" "c < 0x10000" "\<not> (0xD800 \<le> c \<and> c \<le> 0xDFFF)"
    | (d) "0x10000 \<le> c" "c < 0x110000"
    using assms by (auto simp: utf8_encode_char_def split: if_splits)
  then show ?thesis
  proof cases
    case a
    with assms have bs: "bs = [of_nat c]" by (simp add: utf8_encode_char_def)
    from a have "unat (of_nat c :: byte) = c" by (intro unat_byte) simp
    from utf8_decode_one[OF this a] bs show ?thesis by simp
  next
    case b
    with assms have bs: "bs = [of_nat (0xC0 + c div 64), of_nat (0x80 + c mod 64)]"
      by (simp add: utf8_encode_char_def del: of_nat_add)
    from b have h: "2 \<le> c div 64" "c div 64 < 32" by auto
    have 0: "unat (of_nat (0xC0 + c div 64) :: byte) = 0xC0 + c div 64" using h by (intro unat_byte) simp
    have 1: "unat (of_nat (0x80 + c mod 64) :: byte) = 0x80 + c mod 64" by (intro unat_byte) simp
    from utf8_decode_two[OF 0 h 1, of rest] bs show ?thesis by (simp del: of_nat_add)
  next
    case c
    with assms have bs: "bs = [of_nat (0xE0 + c div 4096), of_nat (0x80 + (c div 64) mod 64),
                    of_nat (0x80 + c mod 64)]"
      by (auto simp add: utf8_encode_char_def simp del: of_nat_add)
    from c have h: "c div 4096 < 16" by auto
    have 0: "unat (of_nat (0xE0 + c div 4096) :: byte) = 0xE0 + c div 4096" using h by (intro unat_byte) simp
    have 1: "unat (of_nat (0x80 + (c div 64) mod 64) :: byte) = 0x80 + (c div 64) mod 64" by (intro unat_byte) simp
    have 2: "unat (of_nat (0x80 + c mod 64) :: byte) = 0x80 + c mod 64" by (intro unat_byte) simp
    have g1: "c div 4096 = 0 \<longrightarrow> 32 \<le> (c div 64) mod 64" using c three_byte_not_overlong by blast
    have "c div 4096 = 13 \<longrightarrow> c < 55296" using c by auto
    then have g2: "c div 4096 = 13 \<longrightarrow> (c div 64) mod 64 < 32" using three_byte_not_surrogate by blast
    have v: "c div 4096 * 4096 + (c div 64) mod 64 * 64 + c mod 64 = c" by (rule three_byte_parts)
    from utf8_decode_three[OF 0 h 1 _ 2 _ g1 g2, of rest] bs v show ?thesis by (simp del: of_nat_add)
  next
    case d
    with assms have bs: "bs = [of_nat (0xF0 + c div 262144), of_nat (0x80 + (c div 4096) mod 64),
              of_nat (0x80 + (c div 64) mod 64), of_nat (0x80 + c mod 64)]"
      by (auto simp add: utf8_encode_char_def simp del: of_nat_add)
    from d have h: "c div 262144 < 5" by auto
    have 0: "unat (of_nat (0xF0 + c div 262144) :: byte) = 0xF0 + c div 262144" using h by (intro unat_byte) simp
    have 1: "unat (of_nat (0x80 + (c div 4096) mod 64) :: byte) = 0x80 + (c div 4096) mod 64" by (intro unat_byte) simp
    have 2: "unat (of_nat (0x80 + (c div 64) mod 64) :: byte) = 0x80 + (c div 64) mod 64" by (intro unat_byte) simp
    have 3: "unat (of_nat (0x80 + c mod 64) :: byte) = 0x80 + c mod 64" by (intro unat_byte) simp
    have g1: "c div 262144 = 0 \<longrightarrow> 16 \<le> (c div 4096) mod 64" using d four_byte_not_overlong by blast
    have g2: "c div 262144 = 4 \<longrightarrow> (c div 4096) mod 64 < 16" using d four_byte_in_range by blast
    have v: "c div 262144 * 262144 + (c div 4096) mod 64 * 4096 + (c div 64) mod 64 * 64 + c mod 64 = c" by (rule four_byte_parts)
    from utf8_decode_four[OF 0 h 1 _ 2 _ 3 _ g1 g2, of rest] bs v show ?thesis by (simp del: of_nat_add)
  qed
qed

lemma utf8_roundtrip: "utf8_encode s = Some bs \<Longrightarrow> utf8_decode bs = Some s"
proof (induction s arbitrary: bs)
  case Nil
  then show ?case by simp
next
  case (Cons c s)
  then show ?case
    by (auto simp: utf8_char_roundtrip split: option.splits)
qed


lemma universal_newlines_no_cr: "13 \<notin> set (universal_newlines f s)"
  by (induction f s rule: universal_newlines.induct) auto

lemma universal_newlines_translate:
  assumes "ls = [10] \<or> ls = [13, 10]" and "13 \<notin> set s"
  shows "universal_newlines False (translate_newlines ls s) = s"
  using assms by (induction s) (auto simp: translate_newlines_def)

section \<open>Writing the buffer to a file\<close>

text \<open>
  What \<^verbatim>\<open>save_file\<close> and \<^verbatim>\<open>save_as_file\<close> do when the write goes through and when it does
  not; the theorems below are built on these.
\<close>

lemma write_text_ok:
  "write_succeeds w p s \<Longrightarrow>
     \<exists>bs. utf8_encode (translate_newlines (linesep w) s) = Some bs
        \<and> write_text p s w = (None, w\<lparr>log := log w @ [Write p s], files := (files w)(p \<mapsto> bs)\<rparr>)"
  by (auto simp: write_succeeds_def write_text_def record_event_def)

lemma write_text_fails:
  "\<not> write_succeeds w p s \<Longrightarrow> \<exists>e w'. write_text p s w = (Some e, w')"
  by (auto simp: write_succeeds_def write_text_def Let_def)

lemma write_succeeds_log [simp]:
  "write_succeeds (w\<lparr>log := l\<rparr>) p s = write_succeeds w p s"
  by (simp add: write_succeeds_def)

lemma add_to_recent_files_keeps:
  "add_to_recent_files p (a, w) = (r, a', w') \<Longrightarrow>
     text a' = text a \<and> current_file a' = current_file a \<and> files w' = files w"
  by (auto simp: add_to_recent_files_def Let_def record_event_def split: option.splits if_splits)

lemma save_as_file_success:
  assumes "truthy (save_as_path u)" and "write_succeeds w (save_as_path u) (text_get a)"
    and "save_as_file v u (a, w) = (a', w')"
  shows "text a' = (text a)\<lparr>modified := False\<rparr> \<and> current_file a' = Some (save_as_path u)
       \<and> files w' = (files w)(save_as_path u := utf8_encode (translate_newlines (linesep w) (text_get a)))"
proof -
  from write_text_ok[of "record_event AskSaveAsFilename w" "save_as_path u" "text_get a"] assms(2)
  obtain bs where bs: "utf8_encode (translate_newlines (linesep w) (text_get a)) = Some bs"
    and wt: "write_text (save_as_path u) (text_get a) (record_event AskSaveAsFilename w)
       = (None, (record_event AskSaveAsFilename w)\<lparr>log := log (record_event AskSaveAsFilename w) @ [Write (save_as_path u) (text_get a)],
            files := (files w)(save_as_path u \<mapsto> bs)\<rparr>)"
    by (auto simp: record_event_def)
  show ?thesis
  proof (cases "v = Linux")
    case False
    with assms(1,3) wt bs show ?thesis
      by (auto simp: save_as_file_def Let_def set_edit_modified_def)
  next
    case True
    with assms(1,3) wt bs show ?thesis
      by (auto simp: save_as_file_def Let_def set_edit_modified_def record_event_def
          split: prod.splits option.splits dest!: add_to_recent_files_keeps)
  qed
qed

lemma save_as_file_failure:
  assumes "\<not> (truthy (save_as_path u) \<and> write_succeeds w (save_as_path u) (text_get a))"
    and "save_as_file v u (a, w) = (a', w')"
  shows "a' = a"
proof (cases "truthy (save_as_path u)")
  case False
  with assms(2) show ?thesis by (simp add: save_as_file_def Let_def)
next
  case True
  with assms(1) have "\<not> write_succeeds (record_event AskSaveAsFilename w) (save_as_path u) (text_get a)"
    by (simp add: record_event_def)
  from write_text_fails[OF this] obtain e w1 where
    "write_text (save_as_path u) (text_get a) (record_event AskSaveAsFilename w) = (Some e, w1)" by blast
  with True assms(2) show ?thesis by (simp add: save_as_file_def Let_def)
qed


lemma save_to_current_success:
  assumes "write_succeeds w p (text_get a)"
  shows "save_to_current p (a, w) =
           (a\<lparr>text := (text a)\<lparr>modified := False\<rparr>\<rparr>,
            w\<lparr>log := log w @ [Write p (text_get a)],
              files := (files w)(p := utf8_encode (translate_newlines (linesep w) (text_get a)))\<rparr>)"
  using write_text_ok[OF assms] by (auto simp: save_to_current_def set_edit_modified_def)

lemma save_to_current_failure:
  assumes "\<not> write_succeeds w p (text_get a)"
  shows "fst (save_to_current p (a, w)) = a"
  using write_text_fails[OF assms] by (auto simp: save_to_current_def)

lemma save_file_success:
  assumes "truthy (save_target u a)" and "write_succeeds w (save_target u a) (text_get a)"
    and "save_file v u (a, w) = (a', w')"
  shows "text a' = (text a)\<lparr>modified := False\<rparr> \<and> current_file a' = Some (save_target u a)
       \<and> files w' = (files w)(save_target u a := utf8_encode (translate_newlines (linesep w) (text_get a)))"
proof (cases "current_file a")
  case None
  with assms save_as_file_success[of u w a v a' w'] show ?thesis
    by (simp add: save_file_def save_target_def)
next
  case (Some p)
  show ?thesis
  proof (cases "truthy p")
    case True
    with Some assms save_to_current_success[of w p a] show ?thesis
      by (auto simp: save_file_def save_target_def)
  next
    case False
    with Some assms save_as_file_success[of u w a v a' w'] show ?thesis
      by (simp add: save_file_def save_target_def)
  qed
qed

lemma save_file_failure:
  assumes "\<not> (truthy (save_target u a) \<and> write_succeeds w (save_target u a) (text_get a))"
    and "save_file v u (a, w) = (a', w')"
  shows "a' = a"
proof (cases "current_file a")
  case None
  with assms save_as_file_failure[of u w a v a' w'] show ?thesis
    by (simp add: save_file_def save_target_def)
next
  case (Some p)
  show ?thesis
  proof (cases "truthy p")
    case True
    with Some assms save_to_current_failure[of w p a] show ?thesis
      by (auto simp: save_file_def save_target_def)
  next
    case False
    with Some assms save_as_file_failure[of u w a v a' w'] show ?thesis
      by (simp add: save_file_def save_target_def)
  qed
qed

lemma translate_newlines_posix: "translate_newlines [10] s = s"
  by (induction s) (simp_all add: translate_newlines_def)

lemma utf8_encode_snoc_newline:
  "utf8_encode (s @ [10]) = map_option (\<lambda>bs. bs @ [0x0A]) (utf8_encode s)"
  by (induction s) (auto simp: utf8_encode_char_def option.map_comp comp_def split: option.splits)

lemma add_to_recent_files_log:
  "add_to_recent_files p (a, w) = (r, a', w') \<Longrightarrow> set (log w) \<subseteq> set (log w')"
  by (auto simp: add_to_recent_files_def Let_def record_event_def split: option.splits if_splits)

lemma save_as_file_log:
  assumes "truthy (save_as_path u)" and "save_as_file v u (a, w) = (a', w')"
  shows "Write (save_as_path u) (text_get a) \<in> set (log w')"
proof -
  have l: "log (snd (write_text p s w0)) = log w0 @ [Write p s]" for p s w0
    by (simp add: write_text_def record_event_def Let_def split: option.splits)
  obtain r w2 where wt: "write_text (save_as_path u) (text_get a) (record_event AskSaveAsFilename w) = (r, w2)"
    by (cases "write_text (save_as_path u) (text_get a) (record_event AskSaveAsFilename w)")
  with l[of "save_as_path u" "text_get a" "record_event AskSaveAsFilename w"]
  have m: "Write (save_as_path u) (text_get a) \<in> set (log w2)" by simp
  from assms wt m show ?thesis
    by (auto simp: save_as_file_def Let_def record_event_def
        split: option.splits prod.splits if_splits dest!: add_to_recent_files_log)
qed

lemma save_file_log:
  assumes "truthy (save_target u a)" and "save_file v u (a, w) = (a', w')"
  shows "Write (save_target u a) (text_get a) \<in> set (log w')"
proof -
  have l: "log (snd (write_text p s w0)) = log w0 @ [Write p s]" for p s w0
    by (simp add: write_text_def record_event_def Let_def split: option.splits)
  have c: "Write p (text_get a) \<in> set (log (snd (save_to_current p (a, w))))" for p
    using l[of p "text_get a" w]
    by (cases "write_text p (text_get a) w")
       (auto simp: save_to_current_def record_event_def split: option.splits)
  show ?thesis
  proof (cases "current_file a")
    case None
    with assms save_as_file_log[of u v a w a' w'] show ?thesis
      by (simp add: save_file_def save_target_def)
  next
    case (Some p)
    with assms save_as_file_log[of u v a w a' w'] c[of p] show ?thesis
      by (auto simp: save_file_def save_target_def split: if_splits)
  qed
qed

section \<open>Reading a file into the buffer\<close>

lemma read_text_eq:
  "read_text p enc w =
     ((case files w p of
         None \<Rightarrow> Inl OSError
       | Some bs \<Rightarrow>
           if \<not> readable w p then Inl OSError
           else (case decode enc bs of
                   None \<Rightarrow> Inl UnicodeDecodeError
                 | Some s \<Rightarrow> Inr (universal_newlines False s))),
      w\<lparr>log := log w @ [Read p enc]\<rparr>)"
  by (simp add: read_text_def record_event_def Let_def split: option.splits)

lemma latin1_total: "decode ISO_8859_1 bs = Some (map unat bs)"
  by (simp add: latin1_decode_def)

lemma read_succeeds_log [simp]: "read_succeeds v (w\<lparr>log := l\<rparr>) p = read_succeeds v w p"
  by (simp add: read_succeeds_def split: option.splits)

lemma load_path:
  "current_file (fst (load v p (a, w))) = (if read_succeeds v w p then Some p else current_file a)"
proof (cases v)
  case Windows
  then show ?thesis
    by (simp add: windows_load_def read_text_eq read_succeeds_def replace_document_def
        widget_defs split: option.splits)
next
  case MacOS
  then show ?thesis
    by (simp add: macos_load_def read_text_eq read_succeeds_def replace_document_def
        latin1_total widget_defs split: option.splits)
next
  case Linux
  have k: "current_file (fst (case add_to_recent_files p (a0, w0) of
               (Some e, a2, w2) \<Rightarrow> (a2, record_event (ShowError Open_failed) w2)
             | (None, a2, w2) \<Rightarrow> (set_edit_modified False a2, w2))) = current_file a0" for a0 w0
    by (cases "add_to_recent_files p (a0, w0)")
       (auto simp: set_edit_modified_def split: option.splits dest: add_to_recent_files_keeps)
  from Linux show ?thesis
    by (simp add: load_file_def read_text_eq read_succeeds_def k replace_document_def
        latin1_total widget_defs split: option.splits)
qed


lemma load_content:
  assumes "files w p = Some bs" and "readable w p" and "decode UTF_8 bs = Some s"
  shows "content (text (fst (load v p (a, w)))) = universal_newlines False s"
proof (cases v)
  case Windows
  with assms show ?thesis
    by (simp add: windows_load_def read_text_eq replace_document_def widget_defs)
next
  case MacOS
  with assms show ?thesis
    by (simp add: macos_load_def read_text_eq replace_document_def widget_defs)
next
  case Linux
  have k: "text (fst (case add_to_recent_files p (a0, w0) of
               (Some e, a2, w2) \<Rightarrow> (a2, record_event (ShowError Open_failed) w2)
             | (None, a2, w2) \<Rightarrow> (set_edit_modified False a2, w2)))
           = (text a0)\<lparr>modified := modified (text (fst (case add_to_recent_files p (a0, w0) of
               (Some e, a2, w2) \<Rightarrow> (a2, record_event (ShowError Open_failed) w2)
             | (None, a2, w2) \<Rightarrow> (set_edit_modified False a2, w2))))\<rparr>" for a0 w0
    by (cases "add_to_recent_files p (a0, w0)")
       (auto simp: set_edit_modified_def split: option.splits dest: add_to_recent_files_keeps)
  have c: "content (text (fst (case add_to_recent_files p (a0, w0) of
               (Some e, a2, w2) \<Rightarrow> (a2, record_event (ShowError Open_failed) w2)
             | (None, a2, w2) \<Rightarrow> (set_edit_modified False a2, w2)))) = content (text a0)" for a0 w0
    by (subst k) simp
  from Linux assms show ?thesis
    by (simp add: load_file_def read_text_eq c replace_document_def widget_defs)
qed

lemma load_encodings_cases:
  assumes "load_encodings v = tried @ enc # later"
  shows "(v = Windows \<and> tried = [] \<and> enc = UTF_8)
       \<or> (v = MacOS \<and> tried = [] \<and> enc = UTF_8) \<or> (v = MacOS \<and> tried = [UTF_8] \<and> enc = ISO_8859_1)
       \<or> (v = Linux \<and> tried = [] \<and> enc = UTF_8) \<or> (v = Linux \<and> tried = [UTF_8] \<and> enc = CP1251)
       \<or> (v = Linux \<and> tried = [UTF_8, CP1251] \<and> enc = ISO_8859_1)"
  using assms by (cases v) (auto simp: Cons_eq_append_conv)

lemma load_log_grows:
  "\<exists>evs. log (snd (load v p (a, w))) = log w @ evs \<and> ShowError Encoding_undetermined \<notin> set evs"
proof (cases v)
  case Windows
  then show ?thesis
    by (simp add: windows_load_def read_text_eq record_event_def split: option.splits)
next
  case MacOS
  then show ?thesis
    by (simp add: macos_load_def read_text_eq record_event_def latin1_total split: option.splits)
next
  case Linux
  have k: "\<exists>evs. log (snd (case add_to_recent_files p (a0, w0) of
               (Some e, a2, w2) \<Rightarrow> (a2, record_event (ShowError Open_failed) w2)
             | (None, a2, w2) \<Rightarrow> (set_edit_modified False a2, w2))) = log w0 @ evs
             \<and> ShowError Encoding_undetermined \<notin> set evs" for a0 w0
    by (auto simp: add_to_recent_files_def Let_def record_event_def split: option.splits)
  have k2: "\<exists>evs. log (snd (case add_to_recent_files p (a0, w0\<lparr>log := log w @ l\<rparr>) of
               (Some e, a2, w2) \<Rightarrow> (a2, record_event (ShowError Open_failed) w2)
             | (None, a2, w2) \<Rightarrow> (set_edit_modified False a2, w2))) = log w @ evs
             \<and> ShowError Encoding_undetermined \<notin> set evs"
    if "ShowError Encoding_undetermined \<notin> set l" for a0 w0 l
    using k[of a0 "w0\<lparr>log := log w @ l\<rparr>"] that by auto
  from Linux show ?thesis
    by (auto simp: load_file_def read_text_eq record_event_def latin1_decode_def
        split: option.splits intro!: k2)
qed

text \<open>
  In linux.py the recent-files update runs inside the \<^verbatim>\<open>try\<close> block of \<^verbatim>\<open>load_file\<close>, after
  the document was replaced and before the modified flag is reset. When it raises, the
  file has been loaded, yet an error is shown and the flag stays set.
\<close>

lemma load_file_recent_files_failure:
  assumes "files w p = Some bs" and "readable w p" and "decode UTF_8 bs = Some s"
    and "max_files a = None \<or> \<not> recent_writable w"
    and "load_file p (a, w) = (a', w')"
  shows "content (text a') = universal_newlines False s \<and> current_file a' = Some p
       \<and> edit_modified a' \<and> ShowError Open_failed \<in> set (log w')"
  using assms
  by (auto simp: load_file_def read_text_eq replace_document_def add_to_recent_files_def
      Let_def widget_defs split: option.splits)

section \<open>Where the path can change\<close>

lemma gate_abort_keeps:
  assumes "check_unsaved_changes v u (a, w) = (False, a1, w1)"
  shows "a1 = a"
proof (cases "edit_modified a")
  case False
  with assms show ?thesis by (simp add: check_unsaved_changes_def)
next
  case True
  show ?thesis
  proof (cases "unsaved_response u")
    case None
    with True assms show ?thesis by (simp add: check_unsaved_changes_def Let_def)
  next
    case (Some b)
    show ?thesis
    proof (cases b)
      case False
      with Some True assms show ?thesis by (simp add: check_unsaved_changes_def Let_def)
    next
      case b: True
      obtain a2 w2 where sf: "save_file v u (a, record_event AskYesNoCancel w) = (a2, w2)"
        by (cases "save_file v u (a, record_event AskYesNoCancel w)")
      with b Some True assms have e: "edit_modified a2" "a1 = a2"
        by (auto simp: check_unsaved_changes_def Let_def)
      have ws: "write_succeeds (record_event AskYesNoCancel w) p s = write_succeeds w p s" for p s
        by (simp add: record_event_def)
      show ?thesis
      proof (cases "truthy (save_target u a) \<and> write_succeeds w (save_target u a) (text_get a)")
        case True
        with save_file_success[OF _ _ sf] ws e show ?thesis by (simp add: edit_modified_def)
      next
        case False
        with save_file_failure[OF _ sf] ws e show ?thesis by simp
      qed
    qed
  qed
qed

lemma save_as_file_path:
  "current_file (fst (save_as_file v u (a, w)))
     = (if truthy (save_as_path u) \<and> write_succeeds w (save_as_path u) (text_get a)
        then Some (save_as_path u) else current_file a)"
proof -
  obtain a' w' where e: "save_as_file v u (a, w) = (a', w')" by (cases "save_as_file v u (a, w)")
  show ?thesis
    using save_as_file_success[OF _ _ e] save_as_file_failure[OF _ e] e by auto
qed

lemma save_file_path:
  "current_file (fst (save_file v u (a, w)))
     = (if truthy (save_target u a) \<and> write_succeeds w (save_target u a) (text_get a)
        then Some (save_target u a) else current_file a)"
proof -
  obtain a' w' where e: "save_file v u (a, w) = (a', w')" by (cases "save_file v u (a, w)")
  show ?thesis
    using save_file_success[OF _ _ e] save_file_failure[OF _ e] e by auto
qed

lemma gate_path:
  assumes "check_unsaved_changes v u (a, w) = (ok, a1, w1)"
  shows "current_file a1
     = (if edit_modified a \<and> unsaved_response u = Some True \<and> truthy (save_target u a)
           \<and> write_succeeds w (save_target u a) (text_get a)
        then Some (save_target u a) else current_file a)"
proof -
  have ws: "write_succeeds (record_event AskYesNoCancel w) p s = write_succeeds w p s" for p s
    by (simp add: record_event_def)
  from assms save_file_path[of v u a "record_event AskYesNoCancel w"] ws show ?thesis
    by (auto simp: check_unsaved_changes_def Let_def set_edit_modified_def
        split: if_splits option.splits bool.splits prod.splits)
qed

section \<open>The unsaved-changes gate\<close>

text \<open>
  C3. When the modified flag is clear, \<^verbatim>\<open>check_unsaved_changes\<close> returns \<^verbatim>\<open>True\<close> at once:
  the editor and the world, the record of collaborator calls included, are exactly as
  before, so no prompt was shown, no dialog opened and nothing saved.
\<close>

theorem gate_clean_returns_at_once:
  assumes "\<not> edit_modified a"
  shows "check_unsaved_changes v u (a, w) = (True, a, w)"
  using assms by (simp add: check_unsaved_changes_def)

theorem gate_clean_returns_at_once_witness:
  "\<not> edit_modified clean_app
   \<and> check_unsaved_changes Linux user_save (clean_app, posix_world) = (True, clean_app, posix_world)"
  using gate_clean_returns_at_once [of clean_app Linux user_save posix_world]
  by (simp add: clean_app_def named_app_def dirty_app_def widget_defs)

text \<open>
  C2. With unsaved changes and the answer Cancel, the gate returns \<^verbatim>\<open>False\<close>; the editor
  (buffer, path, modified flag and all else) is unchanged and the only collaborator call
  is the prompt. The callers \<^verbatim>\<open>new_file\<close>, \<^verbatim>\<open>open_file\<close> and \<^verbatim>\<open>exit_app\<close> then do nothing
  more: the buffer is not cleared, the path not replaced, \<^verbatim>\<open>quit\<close> not called.
\<close>

theorem gate_cancel_aborts:
  assumes "edit_modified a" and "unsaved_response u = None"
  shows "check_unsaved_changes v u (a, w) = (False, a, w\<lparr>log := log w @ [AskYesNoCancel]\<rparr>)
       \<and> new_file v u (a, w) = (a, w\<lparr>log := log w @ [AskYesNoCancel]\<rparr>)
       \<and> open_file v filepath u (a, w) = (a, w\<lparr>log := log w @ [AskYesNoCancel]\<rparr>)
       \<and> exit_app v u (a, w) = (a, w\<lparr>log := log w @ [AskYesNoCancel]\<rparr>)"
  using assms
  by (simp add: check_unsaved_changes_def new_file_def open_file_def exit_app_def record_event_def)

theorem gate_cancel_aborts_witness:
  "edit_modified named_app \<and> unsaved_response user_cancel = None
   \<and> check_unsaved_changes Windows user_cancel (named_app, posix_world)
       = (False, named_app, posix_world\<lparr>log := [AskYesNoCancel]\<rparr>)
   \<and> new_file Windows user_cancel (named_app, posix_world)
       = (named_app, posix_world\<lparr>log := [AskYesNoCancel]\<rparr>)
   \<and> exit_app Windows user_cancel (named_app, posix_world)
       = (named_app, posix_world\<lparr>log := [AskYesNoCancel]\<rparr>)"
  using gate_cancel_aborts [of named_app user_cancel Windows posix_world None]
  by (simp add: named_app_def dirty_app_def user_cancel_def user_save_def posix_world_def widget_defs)



text \<open>
  C1. With unsaved changes and the answer Save (\<^verbatim>\<open>Yes\<close>), the gate calls \<^verbatim>\<open>save_file\<close>.
  When the save goes through (the target path is not empty, can be written, and the text
  can be encoded) the gate returns \<^verbatim>\<open>True\<close>, the modified flag is clear, the buffer is
  as before and the file holds it. When the write fails or the Save As dialog is
  dismissed, the gate returns \<^verbatim>\<open>False\<close>, the editor is exactly as before and still
  modified, and \<^verbatim>\<open>new_file\<close>, \<^verbatim>\<open>open_file\<close> and \<^verbatim>\<open>exit_app\<close> do nothing more.
\<close>

theorem gate_save_outcome:
  assumes "edit_modified a" and "unsaved_response u = Some True"
    and "check_unsaved_changes v u (a, w) = (r, a', w')"
  shows "if truthy (save_target u a) \<and> write_succeeds w (save_target u a) (text_get a)
         then r \<and> \<not> edit_modified a' \<and> content (text a') = content (text a)
              \<and> current_file a' = Some (save_target u a)
              \<and> files w' = (files w)(save_target u a :=
                    utf8_encode (translate_newlines (linesep w) (text_get a)))
         else \<not> r \<and> a' = a \<and> edit_modified a'
              \<and> new_file v u (a, w) = (a, w')
              \<and> open_file v filepath u (a, w) = (a, w')
              \<and> exit_app v u (a, w) = (a, w')"
proof -
  let ?w1 = "record_event AskYesNoCancel w"
  obtain a2 w2 where sf: "save_file v u (a, ?w1) = (a2, w2)" by (cases "save_file v u (a, ?w1)")
  with assms have res: "r = (\<not> edit_modified a2)" "a' = a2" "w' = w2"
    by (auto simp: check_unsaved_changes_def)
  have ws: "write_succeeds ?w1 p s = write_succeeds w p s" for p s
    by (simp add: record_event_def)
  show ?thesis
  proof (cases "truthy (save_target u a) \<and> write_succeeds w (save_target u a) (text_get a)")
    case True
    with save_file_success[OF _ _ sf] ws res show ?thesis
      by (simp add: edit_modified_def record_event_def)
  next
    case False
    with save_file_failure[OF _ sf] ws have "a2 = a" by simp
    with False res assms show ?thesis
      by (simp add: new_file_def open_file_def exit_app_def)
  qed
qed

theorem gate_save_outcome_witness:
  "edit_modified dirty_app \<and> unsaved_response user_save = Some True
   \<and> check_unsaved_changes Windows user_save (dirty_app, posix_world)
       = (True, clean_app,
          posix_world\<lparr>log := [AskYesNoCancel, AskSaveAsFilename, Write ''/tmp/a.txt'' (hello @ [10])],
                       files := [''/tmp/a.txt'' \<mapsto> hello_bytes @ [0x0A]]\<rparr>)
   \<and> truthy (save_target user_save dirty_app)
   \<and> write_succeeds posix_world (save_target user_save dirty_app) (text_get dirty_app)
   \<and> \<not> edit_modified clean_app \<and> content (text clean_app) = content (text dirty_app)
   \<and> current_file clean_app = Some (save_target user_save dirty_app)
   \<and> unsaved_response user_save_dismiss = Some True
   \<and> \<not> truthy (save_target user_save_dismiss dirty_app)
   \<and> check_unsaved_changes Windows user_save_dismiss (dirty_app, posix_world)
       = (False, dirty_app, posix_world\<lparr>log := [AskYesNoCancel, AskSaveAsFilename]\<rparr>)
   \<and> new_file Windows user_save_dismiss (dirty_app, posix_world)
       = (dirty_app, posix_world\<lparr>log := [AskYesNoCancel, AskSaveAsFilename]\<rparr>)
   \<and> exit_app Windows user_save_dismiss (dirty_app, posix_world)
       = (dirty_app, posix_world\<lparr>log := [AskYesNoCancel, AskSaveAsFilename]\<rparr>)"
proof -
  have ev: "check_unsaved_changes Windows user_save (dirty_app, posix_world)
       = (True, clean_app,
          posix_world\<lparr>log := [AskYesNoCancel, AskSaveAsFilename, Write ''/tmp/a.txt'' (hello @ [10])],
                       files := [''/tmp/a.txt'' \<mapsto> hello_bytes @ [0x0A]]\<rparr>)"
    by (simp add: eval_defs sample_defs widget_defs)
  have d: "edit_modified dirty_app" by (simp add: dirty_app_def edit_modified_def)
  have r: "unsaved_response user_save = Some True" by (simp add: user_save_def)
  have t: "truthy (save_target user_save dirty_app)"
    by (simp add: save_target_def dirty_app_def user_save_def truthy_def)
  have ws: "write_succeeds posix_world (save_target user_save dirty_app) (text_get dirty_app)"
    by (simp add: eval_defs sample_defs widget_defs)
  from gate_save_outcome[OF d r ev, of None] t ws
  have c: "\<not> edit_modified clean_app \<and> content (text clean_app) = content (text dirty_app)
         \<and> current_file clean_app = Some (save_target user_save dirty_app)"
    by simp
  have ev': "check_unsaved_changes Windows user_save_dismiss (dirty_app, posix_world)
       = (False, dirty_app, posix_world\<lparr>log := [AskYesNoCancel, AskSaveAsFilename]\<rparr>)"
    by (simp add: eval_defs sample_defs widget_defs)
  have r': "unsaved_response user_save_dismiss = Some True" by (simp add: sample_defs)
  have t': "\<not> truthy (save_target user_save_dismiss dirty_app)"
    by (simp add: save_target_def sample_defs truthy_def)
  from gate_save_outcome[OF d r' ev', of None] t'
  have c': "new_file Windows user_save_dismiss (dirty_app, posix_world)
       = (dirty_app, posix_world\<lparr>log := [AskYesNoCancel, AskSaveAsFilename]\<rparr>)
     \<and> exit_app Windows user_save_dismiss (dirty_app, posix_world)
       = (dirty_app, posix_world\<lparr>log := [AskYesNoCancel, AskSaveAsFilename]\<rparr>)"
    by simp
  from d r ev t ws c r' t' ev' c' show ?thesis by blast
qed

section \<open>Save\<close>

text \<open>
  C10. The text handed to \<^verbatim>\<open>file.write\<close> by \<^verbatim>\<open>save_file\<close> and \<^verbatim>\<open>save_as_file\<close> is
  \<^verbatim>\<open>text.get(1.0, tk.END)\<close>, the buffer followed by one newline. After a save that goes
  through, the file holds the UTF-8 encoding of that text with \<^verbatim>\<open>os.linesep\<close> for each
  newline; where \<^verbatim>\<open>os.linesep\<close> is \<^verbatim>\<open>\n\<close>, that is the encoded buffer followed by the byte
  0x0A, whether or not the buffer ends in a newline.
\<close>

theorem save_writes_buffer_and_newline:
  assumes "save_file v u (a, w) = (a1, w1)" and "save_as_file v u (a, w) = (a2, w2)"
  shows "(truthy (save_target u a) \<and> write_succeeds w (save_target u a) (text_get a) \<longrightarrow>
            Write (save_target u a) (content (text a) @ [10]) \<in> set (log w1)
            \<and> files w1 (save_target u a) \<noteq> None
            \<and> files w1 (save_target u a)
                = utf8_encode (translate_newlines (linesep w) (content (text a) @ [10]))
            \<and> (linesep w = [10] \<longrightarrow>
                  files w1 (save_target u a)
                    = map_option (\<lambda>bs. bs @ [0x0A]) (utf8_encode (content (text a)))))
       \<and> (truthy (save_as_path u) \<and> write_succeeds w (save_as_path u) (text_get a) \<longrightarrow>
            Write (save_as_path u) (content (text a) @ [10]) \<in> set (log w2)
            \<and> files w2 (save_as_path u) \<noteq> None
            \<and> files w2 (save_as_path u)
                = utf8_encode (translate_newlines (linesep w) (content (text a) @ [10]))
            \<and> (linesep w = [10] \<longrightarrow>
                  files w2 (save_as_path u)
                    = map_option (\<lambda>bs. bs @ [0x0A]) (utf8_encode (content (text a)))))"
proof (intro conjI impI)
  assume h: "truthy (save_target u a) \<and> write_succeeds w (save_target u a) (text_get a)"
  from h save_file_log[OF _ assms(1)]
  show "Write (save_target u a) (content (text a) @ [10]) \<in> set (log w1)"
    by (simp add: text_get_def)
  from h save_file_success[OF _ _ assms(1)]
  show f: "files w1 (save_target u a)
                = utf8_encode (translate_newlines (linesep w) (content (text a) @ [10]))"
    by (simp add: text_get_def)
  from h f show "files w1 (save_target u a) \<noteq> None"
    by (simp add: write_succeeds_def text_get_def)
  assume "linesep w = [10]"
  with f show "files w1 (save_target u a)
                    = map_option (\<lambda>bs. bs @ [0x0A]) (utf8_encode (content (text a)))"
    by (simp add: translate_newlines_posix utf8_encode_snoc_newline)
next
  assume h: "truthy (save_as_path u) \<and> write_succeeds w (save_as_path u) (text_get a)"
  from h save_as_file_log[OF _ assms(2)]
  show "Write (save_as_path u) (content (text a) @ [10]) \<in> set (log w2)"
    by (simp add: text_get_def)
  from h save_as_file_success[OF _ _ assms(2)]
  show f: "files w2 (save_as_path u)
                = utf8_encode (translate_newlines (linesep w) (content (text a) @ [10]))"
    by (simp add: text_get_def)
  from h f show "files w2 (save_as_path u) \<noteq> None"
    by (simp add: write_succeeds_def text_get_def)
  assume "linesep w = [10]"
  with f show "files w2 (save_as_path u)
                    = map_option (\<lambda>bs. bs @ [0x0A]) (utf8_encode (content (text a)))"
    by (simp add: translate_newlines_posix utf8_encode_snoc_newline)
qed

theorem save_writes_buffer_and_newline_witness:
  "save_file Linux user_save (named_app, posix_world)
     = (clean_app,
        posix_world\<lparr>log := [Write ''/tmp/a.txt'' (hello @ [10])],
                     files := [''/tmp/a.txt'' \<mapsto> hello_bytes @ [0x0A]]\<rparr>)
   \<and> truthy (save_target user_save named_app)
   \<and> write_succeeds posix_world (save_target user_save named_app) (text_get named_app)
   \<and> linesep posix_world = [10]
   \<and> files (snd (save_file Linux user_save (named_app, posix_world))) (save_target user_save named_app)
       = map_option (\<lambda>bs. bs @ [0x0A]) (utf8_encode (content (text named_app)))
   \<and> utf8_encode (content (text named_app)) = Some hello_bytes"
proof -
  have ev: "save_file Linux user_save (named_app, posix_world)
     = (clean_app,
        posix_world\<lparr>log := [Write ''/tmp/a.txt'' (hello @ [10])],
                     files := [''/tmp/a.txt'' \<mapsto> hello_bytes @ [0x0A]]\<rparr>)"
    by (simp add: eval_defs sample_defs widget_defs)
  obtain a2 w2 where ev2: "save_as_file Linux user_save (named_app, posix_world) = (a2, w2)"
    by (cases "save_as_file Linux user_save (named_app, posix_world)")
  have t: "truthy (save_target user_save named_app)"
    by (simp add: eval_defs sample_defs widget_defs)
  have ws: "write_succeeds posix_world (save_target user_save named_app) (text_get named_app)"
    by (simp add: eval_defs sample_defs widget_defs)
  have ls: "linesep posix_world = [10]" by (simp add: posix_world_def)
  have en: "utf8_encode (content (text named_app)) = Some hello_bytes"
    by (simp add: eval_defs sample_defs)
  from save_writes_buffer_and_newline[OF ev ev2] t ws ls
  have "files (posix_world\<lparr>log := [Write ''/tmp/a.txt'' (hello @ [10])],
                     files := [''/tmp/a.txt'' \<mapsto> hello_bytes @ [0x0A]]\<rparr>) (save_target user_save named_app)
       = map_option (\<lambda>bs. bs @ [0x0A]) (utf8_encode (content (text named_app)))"
    by blast
  with ev have c: "files (snd (save_file Linux user_save (named_app, posix_world))) (save_target user_save named_app)
       = map_option (\<lambda>bs. bs @ [0x0A]) (utf8_encode (content (text named_app)))"
    by simp
  from ev t ws ls c en show ?thesis by blast
qed

text \<open>
  C9, as it stands, fails where the file cannot be written: the session has a path, the
  save reports an error and the modified flag stays set.
\<close>

theorem save_unwritable_stays_dirty:
  "current_file named_app = Some ''/tmp/a.txt'' \<and> edit_modified named_app
   \<and> save_file Windows user_save (named_app, readonly_world)
       = (named_app,
          readonly_world\<lparr>log := [Write ''/tmp/a.txt'' (hello @ [10]), ShowError Save_failed]\<rparr>)
   \<and> edit_modified (fst (save_file Windows user_save (named_app, readonly_world)))"
  by (simp add: eval_defs sample_defs widget_defs)

text \<open>
  C9, amended. For a session with a path whose write goes through, two calls of
  \<^verbatim>\<open>save_file\<close> in a row hand the same text to \<^verbatim>\<open>file.write\<close>; the second leaves the
  files as the first left them, and the modified flag is clear after each call.
\<close>

theorem save_twice_same_bytes:
  assumes "current_file a = Some p" and "truthy p" and "write_succeeds w p (text_get a)"
    and "save_file v u (a, w) = (a1, w1)" and "save_file v u (a1, w1) = (a2, w2)"
  shows "\<not> edit_modified a1 \<and> \<not> edit_modified a2 \<and> a2 = a1
       \<and> log w1 = log w @ [Write p (text_get a)]
       \<and> log w2 = log w1 @ [Write p (text_get a)]
       \<and> files w1 p = utf8_encode (translate_newlines (linesep w) (text_get a))
       \<and> files w1 p \<noteq> None
       \<and> files w2 = files w1"
proof -
  from assms(1,2,4) save_to_current_success[OF assms(3)]
  have 1: "a1 = a\<lparr>text := (text a)\<lparr>modified := False\<rparr>\<rparr>"
    "w1 = w\<lparr>log := log w @ [Write p (text_get a)],
              files := (files w)(p := utf8_encode (translate_newlines (linesep w) (text_get a)))\<rparr>"
    by (auto simp: save_file_def)
  have g: "text_get a1 = text_get a" and c: "current_file a1 = Some p"
    using 1 assms(1) by (simp_all add: text_get_def)
  have ws: "write_succeeds w1 p (text_get a1)"
    using assms(3) 1 g by (simp add: write_succeeds_def)
  from c assms(2,5) save_to_current_success[OF ws]
  have 2: "a2 = a1\<lparr>text := (text a1)\<lparr>modified := False\<rparr>\<rparr>"
    "w2 = w1\<lparr>log := log w1 @ [Write p (text_get a1)],
              files := (files w1)(p := utf8_encode (translate_newlines (linesep w1) (text_get a1)))\<rparr>"
    by (auto simp: save_file_def)
  from assms(3) have ne: "utf8_encode (translate_newlines (linesep w) (text_get a)) \<noteq> None"
    by (simp add: write_succeeds_def)
  from 1 2 g ne show ?thesis
    by (auto simp: edit_modified_def)
qed

theorem save_twice_same_bytes_witness:
  "current_file named_app = Some ''/tmp/a.txt'' \<and> truthy ''/tmp/a.txt''
   \<and> write_succeeds posix_world ''/tmp/a.txt'' (text_get named_app)
   \<and> save_file MacOS user_save (named_app, posix_world)
       = (clean_app,
          posix_world\<lparr>log := [Write ''/tmp/a.txt'' (hello @ [10])],
                       files := [''/tmp/a.txt'' \<mapsto> hello_bytes @ [0x0A]]\<rparr>)
   \<and> save_file MacOS user_save
        (clean_app,
         posix_world\<lparr>log := [Write ''/tmp/a.txt'' (hello @ [10])],
                      files := [''/tmp/a.txt'' \<mapsto> hello_bytes @ [0x0A]]\<rparr>)
       = (clean_app,
          posix_world\<lparr>log := [Write ''/tmp/a.txt'' (hello @ [10]), Write ''/tmp/a.txt'' (hello @ [10])],
                       files := [''/tmp/a.txt'' \<mapsto> hello_bytes @ [0x0A]]\<rparr>)
   \<and> \<not> edit_modified clean_app"
proof -
  let ?w1 = "posix_world\<lparr>log := [Write ''/tmp/a.txt'' (hello @ [10])],
                       files := [''/tmp/a.txt'' \<mapsto> hello_bytes @ [0x0A]]\<rparr>"
  have p: "current_file named_app = Some ''/tmp/a.txt''" by (simp add: sample_defs)
  have t: "truthy ''/tmp/a.txt''" by (simp add: truthy_def)
  have ws: "write_succeeds posix_world ''/tmp/a.txt'' (text_get named_app)"
    by (simp add: eval_defs sample_defs widget_defs)
  have e1: "save_file MacOS user_save (named_app, posix_world) = (clean_app, ?w1)"
    by (simp add: eval_defs sample_defs widget_defs)
  have e2: "save_file MacOS user_save (clean_app, ?w1)
       = (clean_app,
          posix_world\<lparr>log := [Write ''/tmp/a.txt'' (hello @ [10]), Write ''/tmp/a.txt'' (hello @ [10])],
                       files := [''/tmp/a.txt'' \<mapsto> hello_bytes @ [0x0A]]\<rparr>)"
    by (simp add: eval_defs sample_defs widget_defs)
  from save_twice_same_bytes[OF p t ws e1 e2] have "\<not> edit_modified clean_app" by blast
  with p t ws e1 e2 show ?thesis by blast
qed

section \<open>Load\<close>

text \<open>
  C5 does not hold of the code as a whole. The order is as claimed: linux.py tries UTF-8,
  cp1251 and ISO-8859-1, macos.py UTF-8 and then latin-1, Windows.py UTF-8 alone. For a
  readable file, when every encoding tried before \<open>enc\<close> rejects the bytes and \<open>enc\<close> decodes
  them, the file is read with \<open>enc\<close>: the encodings opened are exactly those up to \<open>enc\<close>,
  none after it, the buffer becomes the text decoded by \<open>enc\<close> (line endings translated by
  the text-mode read) and the path is set. The modified flag, however, is reset only by
  macos.py and by the run of linux.py in which the recent-files update raises nothing.
  linux.py calls \<^verbatim>\<open>add_to_recent_files\<close> before \<^verbatim>\<open>edit_modified(False)\<close>, inside the \<^verbatim>\<open>try\<close>
  block: when it raises, the file has been read and decoded, an error is shown and the
  flag is left as the insertion set it (its own \<^verbatim>\<open>save_as_file\<close> resets the flag first).
  Windows.py never resets the flag after a load.
\<close>

theorem load_first_decodable_encoding_and_flag:
  assumes "files w p = Some bs" and "readable w p"
    and "load_encodings v = tried @ enc # later"
    and "list_all (\<lambda>e. decode e bs = None) tried"
    and "decode enc bs = Some s"
    and "load v p (a, w) = (a', w')"
  shows "hd (load_encodings v) = UTF_8
       \<and> content (text a') = universal_newlines False s
       \<and> current_file a' = Some p
       \<and> (if v = Linux then encoding_label a' = enc else encoding_label a' = encoding_label a)
       \<and> files w' = files w
       \<and> log w' = log w @ map (Read p) (tried @ [enc])
                    @ (if v = Linux
                       then (if max_files a \<noteq> None \<and> recent_writable w
                             then [WriteRecent (recent_files a')] else [ShowError Open_failed])
                       else [])
       \<and> edit_modified a'
           = (if v = MacOS \<or> (v = Linux \<and> max_files a \<noteq> None \<and> recent_writable w) then False
              else edit_modified (text_insert (universal_newlines False s) (text_delete a)))"
proof -
  from load_encodings_cases[OF assms(3)]
  consider (w1) "v = Windows" "tried = []" "enc = UTF_8"
    | (m1) "v = MacOS" "tried = []" "enc = UTF_8"
    | (m2) "v = MacOS" "tried = [UTF_8]" "enc = ISO_8859_1"
    | (l1) "v = Linux" "tried = []" "enc = UTF_8"
    | (l2) "v = Linux" "tried = [UTF_8]" "enc = CP1251"
    | (l3) "v = Linux" "tried = [UTF_8, CP1251]" "enc = ISO_8859_1"
    by blast
  then show ?thesis
  proof cases
    case w1
    with assms show ?thesis
      by (auto simp: windows_load_def read_text_eq replace_document_def widget_defs)
  next
    case m1
    with assms show ?thesis
      by (auto simp: macos_load_def read_text_eq replace_document_def widget_defs)
  next
    case m2
    with assms show ?thesis
      by (auto simp: macos_load_def read_text_eq replace_document_def widget_defs)
  next
    case l1
    with assms show ?thesis
      by (auto simp: load_file_def read_text_eq replace_document_def add_to_recent_files_def
          Let_def widget_defs split: option.splits)
  next
    case l2
    with assms show ?thesis
      by (auto simp: load_file_def read_text_eq replace_document_def add_to_recent_files_def
          Let_def widget_defs split: option.splits)
  next
    case l3
    with assms show ?thesis
      by (auto simp: load_file_def read_text_eq replace_document_def add_to_recent_files_def
          Let_def widget_defs split: option.splits)
  qed
qed

theorem load_first_decodable_encoding_and_flag_witness:
  "files norecent_world ''/tmp/a.txt'' = Some [0xE9] \<and> readable norecent_world ''/tmp/a.txt''
   \<and> load_encodings Linux = [UTF_8] @ CP1251 # [ISO_8859_1]
   \<and> list_all (\<lambda>e. decode e [0xE9] = None) [UTF_8]
   \<and> decode CP1251 [0xE9] = Some [0x439]
   \<and> decode ISO_8859_1 [0xE9] = Some [0xE9]
   \<and> \<not> edit_modified empty_app \<and> \<not> recent_writable norecent_world
   \<and> load Linux ''/tmp/a.txt'' (empty_app, norecent_world)
        = (\<lparr>text = \<lparr>content = [0x439], modified = True\<rparr>, current_file = Some ''/tmp/a.txt'',
            recent_files = [''/tmp/a.txt''], max_files = Some 10, encoding_label = CP1251,
            quit = False\<rparr>,
           norecent_world\<lparr>log := [Read ''/tmp/a.txt'' UTF_8, Read ''/tmp/a.txt'' CP1251,
                                   ShowError Open_failed]\<rparr>)
   \<and> edit_modified (fst (load Linux ''/tmp/a.txt'' (empty_app, norecent_world)))
   \<and> files hello_world ''/tmp/a.txt'' = Some hello_bytes \<and> readable hello_world ''/tmp/a.txt''
   \<and> load_encodings Windows = [] @ UTF_8 # []
   \<and> decode UTF_8 hello_bytes = Some hello
   \<and> load Windows ''/tmp/a.txt'' (empty_app, hello_world)
        = (\<lparr>text = \<lparr>content = hello, modified = True\<rparr>, current_file = Some ''/tmp/a.txt'',
            recent_files = [], max_files = Some 10, encoding_label = UTF_8, quit = False\<rparr>,
           hello_world\<lparr>log := [Read ''/tmp/a.txt'' UTF_8]\<rparr>)
   \<and> edit_modified (fst (load Windows ''/tmp/a.txt'' (empty_app, hello_world)))
   \<and> \<not> edit_modified (fst (load MacOS ''/tmp/a.txt'' (empty_app, hello_world)))
   \<and> \<not> edit_modified (fst (load Linux ''/tmp/a.txt'' (empty_app, hello_world)))"
proof -
  have f: "files norecent_world ''/tmp/a.txt'' = Some [0xE9]"
    and r: "readable norecent_world ''/tmp/a.txt''"
    and nr: "\<not> recent_writable norecent_world" and ne: "\<not> edit_modified empty_app"
    by (simp_all add: sample_defs widget_defs)
  have e: "load_encodings Linux = [UTF_8] @ CP1251 # [ISO_8859_1]" by simp
  have n: "list_all (\<lambda>e. decode e [0xE9] = None) [UTF_8]" by simp
  have d: "decode CP1251 [0xE9] = Some [0x439]" by (simp add: cp1251_char_def)
  have d': "decode ISO_8859_1 [0xE9] = Some [0xE9]" by (simp add: latin1_decode_def)
  have ev: "load Linux ''/tmp/a.txt'' (empty_app, norecent_world)
        = (\<lparr>text = \<lparr>content = [0x439], modified = True\<rparr>, current_file = Some ''/tmp/a.txt'',
            recent_files = [''/tmp/a.txt''], max_files = Some 10, encoding_label = CP1251,
            quit = False\<rparr>,
           norecent_world\<lparr>log := [Read ''/tmp/a.txt'' UTF_8, Read ''/tmp/a.txt'' CP1251,
                                   ShowError Open_failed]\<rparr>)"
    by (simp add: load_defs eval_defs sample_defs widget_defs)
  from load_first_decodable_encoding_and_flag[OF f r e n d ev] nr
  have m: "edit_modified (fst (load Linux ''/tmp/a.txt'' (empty_app, norecent_world)))"
    by (simp add: ev widget_defs del: load.simps)
  have f2: "files hello_world ''/tmp/a.txt'' = Some hello_bytes"
    and r2: "readable hello_world ''/tmp/a.txt''"
    by (simp_all add: sample_defs)
  have e2: "load_encodings Windows = [] @ UTF_8 # []" by simp
  have d2: "decode UTF_8 hello_bytes = Some hello" by (simp add: sample_defs)
  have ev2: "load Windows ''/tmp/a.txt'' (empty_app, hello_world)
        = (\<lparr>text = \<lparr>content = hello, modified = True\<rparr>, current_file = Some ''/tmp/a.txt'',
            recent_files = [], max_files = Some 10, encoding_label = UTF_8, quit = False\<rparr>,
           hello_world\<lparr>log := [Read ''/tmp/a.txt'' UTF_8]\<rparr>)"
    by (simp add: load_defs eval_defs sample_defs widget_defs)
  from load_first_decodable_encoding_and_flag[OF f2 r2 e2 _ d2 ev2]
  have m2: "edit_modified (fst (load Windows ''/tmp/a.txt'' (empty_app, hello_world)))"
    by (simp add: ev2 widget_defs del: load.simps)
  have m3: "\<not> edit_modified (fst (load MacOS ''/tmp/a.txt'' (empty_app, hello_world)))"
    "\<not> edit_modified (fst (load Linux ''/tmp/a.txt'' (empty_app, hello_world)))"
    by (simp_all add: load_defs eval_defs sample_defs widget_defs)
  from f r e n d d' ne nr ev m f2 r2 e2 d2 ev2 m2 m3 show ?thesis by blast
qed

text \<open>
  C6, as it stands, asks for bytes that every candidate encoding rejects. For the lists of
  linux.py and macos.py there are none: their last entry decodes every byte sequence.
\<close>

theorem no_bytes_exhaust_the_encodings:
  "\<not> (\<exists>bs. list_all (\<lambda>e. decode e bs = None) (load_encodings Linux))
   \<and> \<not> (\<exists>bs. list_all (\<lambda>e. decode e bs = None) (load_encodings MacOS))"
  by (simp add: latin1_decode_def)

text \<open>
  C6, amended. In linux.py and macos.py some candidate decodes any given bytes, and no
  load ever shows the encoding error of linux.py's \<^verbatim>\<open>for\<close>/\<^verbatim>\<open>else\<close> branch. When the file is missing or cannot be read, every
  editor shows an error after the first attempt and leaves the editor state (buffer, path,
  modified flag) exactly as it was; so does Windows.py, whose only candidate is UTF-8, for
  bytes that are not UTF-8.
\<close>

theorem load_failure_keeps_session:
  shows "list_ex (\<lambda>e. decode e bs \<noteq> None) (load_encodings Linux)
       \<and> list_ex (\<lambda>e. decode e bs \<noteq> None) (load_encodings MacOS)
       \<and> (\<exists>evs. log (snd (load v p (a, w))) = log w @ evs
              \<and> ShowError Encoding_undetermined \<notin> set evs)
       \<and> (files w p = None \<or> \<not> readable w p \<longrightarrow>
            load v p (a, w) = (a, w\<lparr>log := log w @ [Read p UTF_8, ShowError Open_failed]\<rparr>))
       \<and> (files w p = Some bs \<and> readable w p \<and> decode UTF_8 bs = None \<longrightarrow>
            load Windows p (a, w) = (a, w\<lparr>log := log w @ [Read p UTF_8, ShowError Open_failed]\<rparr>))"
proof (intro conjI impI)
  show "list_ex (\<lambda>e. decode e bs \<noteq> None) (load_encodings Linux)"
    and "list_ex (\<lambda>e. decode e bs \<noteq> None) (load_encodings MacOS)"
    by (simp_all add: latin1_decode_def)
  show "\<exists>evs. log (snd (load v p (a, w))) = log w @ evs
              \<and> ShowError Encoding_undetermined \<notin> set evs"
    by (rule load_log_grows)
  show "load v p (a, w) = (a, w\<lparr>log := log w @ [Read p UTF_8, ShowError Open_failed]\<rparr>)"
    if "files w p = None \<or> \<not> readable w p"
    using that
    by (cases v) (auto simp: load_defs read_text_eq record_event_def split: option.splits)
  show "load Windows p (a, w) = (a, w\<lparr>log := log w @ [Read p UTF_8, ShowError Open_failed]\<rparr>)"
    if "files w p = Some bs \<and> readable w p \<and> decode UTF_8 bs = None"
    using that by (auto simp: load_defs read_text_eq record_event_def)
qed


theorem load_failure_keeps_session_witness:
  "files posix_world ''/tmp/a.txt'' = None
   \<and> load Linux ''/tmp/a.txt'' (named_app, posix_world)
       = (named_app, posix_world\<lparr>log := [Read ''/tmp/a.txt'' UTF_8, ShowError Open_failed]\<rparr>)
   \<and> files legacy_world ''/tmp/b.txt'' = Some [0x98] \<and> readable legacy_world ''/tmp/b.txt''
   \<and> decode UTF_8 [0x98] = None \<and> decode CP1251 [0x98] = None
   \<and> decode ISO_8859_1 [0x98] = Some [0x98]
   \<and> load Windows ''/tmp/b.txt'' (named_app, legacy_world)
       = (named_app, legacy_world\<lparr>log := [Read ''/tmp/b.txt'' UTF_8, ShowError Open_failed]\<rparr>)
   \<and> content (text (fst (load Linux ''/tmp/b.txt'' (named_app, legacy_world)))) = [0x98]"
proof -
  have f: "files posix_world ''/tmp/a.txt'' = None" by (simp add: sample_defs)
  have g: "files legacy_world ''/tmp/b.txt'' = Some [0x98]" "readable legacy_world ''/tmp/b.txt''"
    by (simp_all add: sample_defs)
  have d: "decode UTF_8 [0x98] = None" "decode CP1251 [0x98] = None"
    "decode ISO_8859_1 [0x98] = Some [0x98]"
    by (simp_all add: cp1251_char_def cp1251_high_def latin1_decode_def)
  have l: "log posix_world = []" "log legacy_world = []" by (simp_all add: sample_defs)
  from load_failure_keeps_session[of "[0x98]" Linux "''/tmp/a.txt''" named_app posix_world] f l
  have 1: "load Linux ''/tmp/a.txt'' (named_app, posix_world)
       = (named_app, posix_world\<lparr>log := [Read ''/tmp/a.txt'' UTF_8, ShowError Open_failed]\<rparr>)"
    by simp
  from load_failure_keeps_session[of "[0x98]" Windows "''/tmp/b.txt''" named_app legacy_world] g d l
  have 2: "load Windows ''/tmp/b.txt'' (named_app, legacy_world)
       = (named_app, legacy_world\<lparr>log := [Read ''/tmp/b.txt'' UTF_8, ShowError Open_failed]\<rparr>)"
    by simp
  have 3: "content (text (fst (load Linux ''/tmp/b.txt'' (named_app, legacy_world)))) = [0x98]"
    by (simp add: load_defs eval_defs sample_defs widget_defs cp1251_high_def)
  from f g d 1 2 3 show ?thesis by blast
qed

section \<open>Save, then load\<close>

text \<open>
  C7 does not hold of the code. \<^verbatim>\<open>save_file\<close> writes \<^verbatim>\<open>text.get(1.0, tk.END)\<close>, which ends
  with the widget's final newline, and the load inserts everything it reads. So for every
  buffer, saving to the current file and loading that file gives a buffer that differs
  from the one saved: the saved text with line endings translated, which for a buffer
  without carriage returns is the buffer followed by a newline. This holds in the three
  editors, with \<^verbatim>\<open>os.linesep\<close> either \<^verbatim>\<open>\n\<close> or \<^verbatim>\<open>\r\n\<close>.
\<close>

theorem save_then_load_appends_newline:
  assumes "current_file a = Some p" and "truthy p"
    and "write_succeeds w p (text_get a)" and "readable w p"
    and "linesep w = [10] \<or> linesep w = [13, 10]"
  shows "content (text (fst (load v p (save_file v u (a, w)))))
           = universal_newlines False (translate_newlines (linesep w) (content (text a) @ [10]))
       \<and> content (text (fst (load v p (save_file v u (a, w))))) \<noteq> content (text a)
       \<and> (13 \<notin> set (content (text a)) \<longrightarrow>
            content (text (fst (load v p (save_file v u (a, w))))) = content (text a) @ [10])"
proof -
  let ?t = "translate_newlines (linesep w) (content (text a) @ [10])"
  from assms(3) obtain bs where bs: "utf8_encode ?t = Some bs"
    by (auto simp: write_succeeds_def text_get_def)
  from assms(1,2) save_to_current_success[OF assms(3)] bs
  have sf: "save_file v u (a, w) =
           (a\<lparr>text := (text a)\<lparr>modified := False\<rparr>\<rparr>,
            w\<lparr>log := log w @ [Write p (text_get a)], files := (files w)(p \<mapsto> bs)\<rparr>)"
    by (simp add: save_file_def text_get_def)
  have d: "decode UTF_8 bs = Some ?t" using utf8_roundtrip[OF bs] by simp
  have 1: "content (text (fst (load v p (save_file v u (a, w))))) = universal_newlines False ?t"
    unfolding sf by (rule load_content[OF _ _ d]) (simp_all add: assms(4))
  have 2: "universal_newlines False ?t = content (text a) @ [10]" if "13 \<notin> set (content (text a))"
    using universal_newlines_translate[OF assms(5), of "content (text a) @ [10]"] that by simp
  have 3: "universal_newlines False ?t \<noteq> content (text a)"
  proof (cases "13 \<in> set (content (text a))")
    case True
    with universal_newlines_no_cr[of False ?t] show ?thesis by metis
  next
    case False
    with 2 show ?thesis by simp
  qed
  from 1 2 3 show ?thesis by simp
qed

theorem save_then_load_appends_newline_witness:
  "current_file named_app = Some ''/tmp/a.txt'' \<and> truthy ''/tmp/a.txt''
   \<and> write_succeeds posix_world ''/tmp/a.txt'' (text_get named_app)
   \<and> readable posix_world ''/tmp/a.txt'' \<and> linesep posix_world = [10]
   \<and> content (text named_app) = hello
   \<and> 13 \<notin> set (content (text named_app))
   \<and> content (text (fst (load Windows ''/tmp/a.txt''
        (save_file Windows user_save (named_app, posix_world))))) = hello @ [10]
   \<and> content (text (fst (load MacOS ''/tmp/a.txt''
        (save_file MacOS user_save (named_app, posix_world))))) = hello @ [10]
   \<and> content (text (fst (load Linux ''/tmp/a.txt''
        (save_file Linux user_save (named_app, posix_world))))) = hello @ [10]"
proof -
  have p: "current_file named_app = Some ''/tmp/a.txt''" and t: "truthy ''/tmp/a.txt''"
    and ws: "write_succeeds posix_world ''/tmp/a.txt'' (text_get named_app)"
    and r: "readable posix_world ''/tmp/a.txt''" and ls: "linesep posix_world = [10]"
    and c: "content (text named_app) = hello" and n: "13 \<notin> set (content (text named_app))"
    by (simp_all add: eval_defs sample_defs widget_defs)
  from ls have ls': "linesep posix_world = [10] \<or> linesep posix_world = [13, 10]" by simp
  from save_then_load_appends_newline[OF p t ws r ls'] n
  have "content (text (fst (load v ''/tmp/a.txt''
        (save_file v user_save (named_app, posix_world))))) = content (text named_app) @ [10]" for v
    by blast
  then have "content (text (fst (load v ''/tmp/a.txt''
        (save_file v user_save (named_app, posix_world))))) = hello @ [10]" for v
    by (simp only: c)
  with p t ws r ls c n show ?thesis by blast
qed

section \<open>The path\<close>

text \<open>
  C8, as it stands, names a successful open and a successful Save As as the only
  operations that assign \<open>current_file\<close>. \<^verbatim>\<open>new_file\<close> assigns it too: once the gate lets it
  proceed, it resets the path to \<^verbatim>\<open>None\<close>.
\<close>

theorem new_file_drops_path:
  "current_file named_app = Some ''/tmp/a.txt''
   \<and> current_file (fst (new_file Windows user_discard (named_app, posix_world))) = None"
  by (simp add: new_file_def eval_defs sample_defs widget_defs)

text \<open>
  C8, amended. \<open>current_file\<close> after each operation. Save As sets it to the dialog's
  answer when that is not empty and the write went through, and keeps it otherwise; Save
  keeps it unless it delegates to Save As; a load sets it to the loaded path when the read
  went through and keeps it otherwise; the gate changes it only through the Save it
  invokes; Open sets it to the requested path after a read that went through; Exit keeps
  what the gate left. The only other assignment is that of New, which drops the path once
  the gate lets it proceed. So a path is only ever an answer of a file dialog (or the
  argument handed to linux.py's \<^verbatim>\<open>open_file\<close> and \<^verbatim>\<open>load_file\<close>), stored after the write or
  read of that very path went through.
\<close>

theorem current_file_assignments:
  assumes "check_unsaved_changes v u (a, w) = (ok, a1, w1)"
  shows "current_file (fst (save_as_file v u (a, w)))
           = (if truthy (save_as_path u) \<and> write_succeeds w (save_as_path u) (text_get a)
              then Some (save_as_path u) else current_file a)
       \<and> current_file (fst (save_file v u (a, w)))
           = (if truthy (save_target u a) \<and> write_succeeds w (save_target u a) (text_get a)
              then Some (save_target u a) else current_file a)
       \<and> current_file (fst (load v p (a, w)))
           = (if read_succeeds v w p then Some p else current_file a)
       \<and> current_file a1
           = (if edit_modified a \<and> unsaved_response u = Some True \<and> truthy (save_target u a)
                 \<and> write_succeeds w (save_target u a) (text_get a)
              then Some (save_target u a) else current_file a)
       \<and> current_file (fst (new_file v u (a, w))) = (if ok then None else current_file a)
       \<and> current_file (fst (open_file v filepath u (a, w)))
           = (if ok \<and> truthy (requested_path v filepath u)
                 \<and> read_succeeds v w1 (requested_path v filepath u)
              then Some (requested_path v filepath u) else current_file a1)
       \<and> current_file (fst (exit_app v u (a, w))) = current_file a1"
proof (intro conjI)
  show "current_file (fst (new_file v u (a, w))) = (if ok then None else current_file a)"
    using assms gate_abort_keeps[of v u a w a1 w1]
    by (cases ok) (simp_all add: new_file_def)
  show "current_file (fst (open_file v filepath u (a, w)))
           = (if ok \<and> truthy (requested_path v filepath u)
                 \<and> read_succeeds v w1 (requested_path v filepath u)
              then Some (requested_path v filepath u) else current_file a1)"
    using assms
    by (cases ok)
       (auto simp: open_file_def requested_path_def load_path record_event_def Let_def
          simp del: load.simps split: option.splits)
  show "current_file (fst (exit_app v u (a, w))) = current_file a1"
    using assms by (cases ok) (auto simp: exit_app_def split: option.splits)
qed (rule save_as_file_path save_file_path load_path gate_path[OF assms])+


theorem current_file_assignments_witness:
  "check_unsaved_changes Windows user_save (dirty_app, posix_world)
       = (True, clean_app,
          posix_world\<lparr>log := [AskYesNoCancel, AskSaveAsFilename, Write ''/tmp/a.txt'' (hello @ [10])],
                       files := [''/tmp/a.txt'' \<mapsto> hello_bytes @ [0x0A]]\<rparr>)
   \<and> current_file dirty_app = None
   \<and> current_file clean_app = Some ''/tmp/a.txt''
   \<and> current_file (fst (new_file Windows user_save (dirty_app, posix_world))) = None
   \<and> current_file (fst (exit_app Windows user_save (dirty_app, posix_world))) = Some ''/tmp/a.txt''
   \<and> current_file (fst (save_as_file Windows user_save_dismiss (dirty_app, posix_world))) = None
   \<and> current_file (fst (save_file Windows user_save (dirty_app, readonly_world))) = None
   \<and> current_file (fst (load Windows ''/tmp/a.txt'' (dirty_app, posix_world))) = None"
proof -
  let ?w1 = "posix_world\<lparr>log := [AskYesNoCancel, AskSaveAsFilename, Write ''/tmp/a.txt'' (hello @ [10])],
                       files := [''/tmp/a.txt'' \<mapsto> hello_bytes @ [0x0A]]\<rparr>"
  have ev: "check_unsaved_changes Windows user_save (dirty_app, posix_world) = (True, clean_app, ?w1)"
    by (simp add: eval_defs sample_defs widget_defs)
  obtain a2 w2 where ev2: "check_unsaved_changes Windows user_save_dismiss (dirty_app, posix_world) = (False, a2, w2)"
    by (simp add: eval_defs sample_defs widget_defs)
  obtain ok3 a3 w3 where ev3: "check_unsaved_changes Windows user_save (dirty_app, readonly_world) = (ok3, a3, w3)"
    by (cases "check_unsaved_changes Windows user_save (dirty_app, readonly_world)")
  have p: "current_file dirty_app = None" "current_file clean_app = Some ''/tmp/a.txt''"
    by (simp_all add: sample_defs widget_defs)
  from current_file_assignments[OF ev, of "''/tmp/a.txt''" None] p
  have 1: "current_file (fst (new_file Windows user_save (dirty_app, posix_world))) = None"
    "current_file (fst (exit_app Windows user_save (dirty_app, posix_world))) = Some ''/tmp/a.txt''"
    "current_file (fst (load Windows ''/tmp/a.txt'' (dirty_app, posix_world))) = None"
    by (simp_all add: read_succeeds_def sample_defs)
  from current_file_assignments[OF ev2, of "''/tmp/a.txt''" None] p
  have 2: "current_file (fst (save_as_file Windows user_save_dismiss (dirty_app, posix_world))) = None"
    by (simp add: sample_defs truthy_def)
  from current_file_assignments[OF ev3, of "''/tmp/a.txt''" None] p
  have 3: "current_file (fst (save_file Windows user_save (dirty_app, readonly_world))) = None"
    by (simp add: write_succeeds_def sample_defs)
  from ev p 1 2 3 show ?thesis by blast
qed

end
